theory Spec2Isabelle
  imports Main "HOL-Library.Word"
begin

section \<open>Data model of chloros.cpp\<close>

text \<open>
  The runtime of \<^verbatim>\<open>src/src/chloros.cpp\<close>: a pool of user-level threads
  (\<^verbatim>\<open>thread_queue\<close>) shared by the kernel threads of the process, and per kernel
  thread the thread-local variables \<^verbatim>\<open>current_thread\<close> and
  \<^verbatim>\<open>initial_thread_id\<close>.
\<close>

datatype State = kWaiting | kReady | kRunning | kZombie

text \<open>
  The fields of \<^verbatim>\<open>Context\<close> that chloros.cpp writes. \<^verbatim>\<open>rsp\<close> is
  \<open>None\<close> while the constructor has left it unwritten. The struct is declared in
  chloros.h; the callee-saved registers are only touched by the assembly.
\<close>

record Context =
  rsp :: "64 word option"
  mxcsr :: "32 word"
  x87 :: "32 word"

text \<open>
  What client code can ask of the runtime: the calls of the public interface, and one
  statement of its own, \<^verbatim>\<open>++counter\<close> on a shared counter.
\<close>

datatype cmd =
    CInitialize
  | CSpawn "64 word" "64 word"
  | CYield bool
  | CWait
  | CIncr
  | CGetThreadCount

text \<open>
  A suspended activation: the place in a function at which control continues when the
  call it is waiting for returns. A list of frames is a call stack, innermost first.
  \<^item> \<open>InUser cs\<close>: client code with the statements \<open>cs\<close> still to run;
  \<^item> \<open>InYield\<close>: in \<^verbatim>\<open>Yield\<close>, after \<^verbatim>\<open>ContextSwitch\<close> (line 165);
  \<^item> \<open>InSpawn\<close>: in \<^verbatim>\<open>Spawn\<close>, after \<^verbatim>\<open>Yield()\<close> (line 128);
  \<^item> \<open>InWait\<close>: in \<^verbatim>\<open>Wait\<close>, at the test of the while loop (line 173);
  \<^item> \<open>InThreadEntry_fn\<close>: in \<^verbatim>\<open>ThreadEntry\<close>, after \<^verbatim>\<open>fn(arg)\<close> (line 206);
  \<^item> \<open>InThreadEntry_assert\<close>: in \<^verbatim>\<open>ThreadEntry\<close>, after \<^verbatim>\<open>Yield()\<close> (line 211);
  \<^item> \<open>InStartThread\<close>: at the entry of \<^verbatim>\<open>start_thread\<close>.
\<close>

datatype frame =
    InUser "cmd list"
  | InYield
  | InSpawn
  | InWait
  | InThreadEntry_fn
  | InThreadEntry_assert
  | InStartThread

text \<open>
  \<^verbatim>\<open>class Thread\<close>. \<open>stack\<close> is the address of the owned buffer, 0 for
  \<^verbatim>\<open>nullptr\<close>. \<open>resume\<close> is the control state that \<^verbatim>\<open>ContextSwitch\<close>
  saved for the thread (what its stack and saved registers stand for): the call stack it
  continues with when it is switched to.
\<close>

record Thread =
  thread_id :: "64 word"
  state :: State
  stack :: "64 word"
  ctxt :: Context
  resume :: "frame list"

text \<open>
  A kernel thread: its two thread-local variables, the call stack it is executing
  (\<open>live\<close>, innermost frame first) and the boolean a returning \<^verbatim>\<open>Yield\<close> leaves
  for its caller (\<open>rax\<close>).
\<close>

record kthread =
  current_thread :: "Thread option"
  initial_thread_id :: "64 word"
  live :: "frame list"
  rax :: bool

datatype fault = NullDeref | AssertFailed

text \<open>
  An access to the shared pool or to \<^verbatim>\<open>queue_lock\<close>, logged with the kernel
  thread that makes it.
\<close>

datatype access = Lock | Unlock | Scan | Insert | Erase | PushBack

text \<open>
  The process. \<open>malloc_supply\<close> holds the addresses the allocator will return, in
  order; when it is empty \<^verbatim>\<open>malloc\<close> returns 0. \<open>allocated\<close> logs every
  block handed out, with its size, \<open>freed\<close> every address but null passed to
  \<^verbatim>\<open>free\<close>, \<open>accesses\<close> every access to the pool and its mutex.
  \<open>counter\<close> is the client's shared counter, \<open>counts\<close> the results of its
  \<^verbatim>\<open>GetThreadCount\<close> calls. \<open>crashed\<close> is set when the process dies.
\<close>

record sys =
  thread_queue :: "Thread list"
  next_id :: "64 word"
  kthreads :: "nat \<Rightarrow> kthread"
  memory :: "64 word \<Rightarrow> 64 word option"
  malloc_supply :: "64 word list"
  allocated :: "(64 word \<times> int) list"
  freed :: "64 word list"
  accesses :: "(nat \<times> access) list"
  counter :: int
  counts :: "(int \<times> int) list"
  crashed :: "fault option"

text \<open>
  The client program: the address of \<^verbatim>\<open>start_thread\<close> and, for a function
  pointer and its argument, the statements the function runs.
\<close>

record program =
  StartThread :: "64 word"
  body :: "64 word \<Rightarrow> 64 word \<Rightarrow> cmd list"

section \<open>Helpers of the embedding\<close>

definition upd_kthread :: "nat \<Rightarrow> (kthread \<Rightarrow> kthread) \<Rightarrow> sys \<Rightarrow> sys" where
  "upd_kthread k f s = s\<lparr>kthreads := (kthreads s)(k := f (kthreads s k))\<rparr>"

definition push :: "nat \<Rightarrow> frame \<Rightarrow> sys \<Rightarrow> sys" where
  "push k f s = upd_kthread k (\<lambda>t. t\<lparr>live := f # live t\<rparr>) s"

definition ret :: "nat \<Rightarrow> bool \<Rightarrow> sys \<Rightarrow> sys" where
  "ret k b s = upd_kthread k (\<lambda>t. t\<lparr>rax := b\<rparr>) s"

definition log_access :: "nat \<Rightarrow> access \<Rightarrow> sys \<Rightarrow> sys" where
  "log_access k a s = s\<lparr>accesses := accesses s @ [(k, a)]\<rparr>"

definition crash :: "fault \<Rightarrow> sys \<Rightarrow> sys" where
  "crash f s = s\<lparr>crashed := Some f\<rparr>"

text \<open>\<^verbatim>\<open>current_thread->state = st\<close>; dereferencing a null \<^verbatim>\<open>current_thread\<close> kills the process.\<close>

definition set_current_state :: "nat \<Rightarrow> State \<Rightarrow> sys \<Rightarrow> sys" where
  "set_current_state k st s =
     (case current_thread (kthreads s k) of
        None \<Rightarrow> crash NullDeref s
      | Some c \<Rightarrow> upd_kthread k (\<lambda>t. t\<lparr>current_thread := Some (c\<lparr>state := st\<rparr>)\<rparr>) s)"

section \<open>Thread construction and destruction\<close>

definition kStackSize :: int where
  "kStackSize = 2 ^ 21"

definition malloc :: "int \<Rightarrow> sys \<Rightarrow> 64 word \<times> sys" where
  "malloc n s =
     (case malloc_supply s of
        [] \<Rightarrow> (0, s)
      | p # ps \<Rightarrow> (p, s\<lparr>malloc_supply := ps, allocated := allocated s @ [(p, n)]\<rparr>))"

definition free :: "64 word \<Rightarrow> sys \<Rightarrow> sys" where
  "free p s = (if p = 0 then s else s\<lparr>freed := freed s @ [p]\<rparr>)"

text \<open>\<^verbatim>\<open>Thread::Thread(bool create_stack)\<close>, lines 54 to 62.\<close>

definition Thread_ctor :: "bool \<Rightarrow> sys \<Rightarrow> Thread \<times> sys" where
  "Thread_ctor create_stack s =
     (let s1 = s\<lparr>next_id := next_id s + 1\<rparr>;
          (p, s2) = (if create_stack then malloc kStackSize s1 else (0, s1))
      in (\<lparr>thread_id = next_id s, state = kWaiting, stack = p,
           ctxt = \<lparr>rsp = None, mxcsr = 0x1F80, x87 = 0x037F\<rparr>, resume = []\<rparr>, s2))"

text \<open>\<^verbatim>\<open>Thread::~Thread()\<close>, lines 64 to 66.\<close>

definition Thread_dtor :: "Thread \<Rightarrow> sys \<Rightarrow> sys" where
  "Thread_dtor t s = free (stack t) s"

section \<open>The scheduler\<close>

text \<open>
  \<^verbatim>\<open>Initialize\<close>, lines 98 to 103. Assigning to \<^verbatim>\<open>current_thread\<close> destroys
  the thread it held before, if any.
\<close>

definition Initialize :: "nat \<Rightarrow> sys \<Rightarrow> sys" where
  "Initialize k s =
     (let (new_thread, s1) = Thread_ctor False s;
          new_thread = new_thread\<lparr>state := kWaiting\<rparr>;
          s2 = upd_kthread k (\<lambda>t. t\<lparr>initial_thread_id := thread_id new_thread\<rparr>) s1;
          s3 = (case current_thread (kthreads s2 k) of
                  None \<Rightarrow> s2
                | Some old \<Rightarrow> Thread_dtor old s2)
      in upd_kthread k (\<lambda>t. t\<lparr>current_thread := Some new_thread\<rparr>) s3)"

text \<open>
  The scan of \<^verbatim>\<open>Yield\<close>, lines 136 to 147: the thread moved out of the pool and
  the pool after \<^verbatim>\<open>erase\<close>, or \<open>None\<close> when the loop ends with
  \<^verbatim>\<open>next_thread\<close> still null.
\<close>

fun find_next :: "bool \<Rightarrow> Thread list \<Rightarrow> (Thread \<times> Thread list) option" where
  "find_next only_ready [] = None"
| "find_next only_ready (t # ts) =
     (if \<not> only_ready \<and> state t = kWaiting then Some (t, ts)
      else if state t = kReady then Some (t, ts)
      else (case find_next only_ready ts of
              None \<Rightarrow> None
            | Some (n, r) \<Rightarrow> Some (n, t # r)))"

text \<open>
  Modelled from the spec: \<^verbatim>\<open>context_switch\<close> is assembly that is not under src/.
  It stores the live control state into \<^verbatim>\<open>old_context\<close> and continues with the
  one held by \<^verbatim>\<open>new_context\<close>. When \<^verbatim>\<open>Yield\<close> calls it,
  \<^verbatim>\<open>old_context\<close> points into the thread just pushed to the back of the pool and
  \<^verbatim>\<open>new_context\<close> into \<^verbatim>\<open>current_thread\<close>; the control state stored is the
  return into \<^verbatim>\<open>Yield\<close> at line 165 and the callers below it. (Reading through
  either pointer when there is no such thread kills the process; \<^verbatim>\<open>Yield\<close> never
  calls it so.)
\<close>

definition ContextSwitch :: "nat \<Rightarrow> sys \<Rightarrow> sys" where
  "ContextSwitch k s =
     (case current_thread (kthreads s k) of
        None \<Rightarrow> crash NullDeref s
      | Some new \<Rightarrow>
          (if thread_queue s = [] then crash NullDeref s
           else
             (let old = (last (thread_queue s))\<lparr>resume := InYield # live (kthreads s k)\<rparr>;
                  s1 = s\<lparr>thread_queue := butlast (thread_queue s) @ [old]\<rparr>
              in upd_kthread k (\<lambda>t. t\<lparr>live := resume new\<rparr>) s1)))"

text \<open>
  \<^verbatim>\<open>Yield\<close>, lines 130 to 163: everything up to and including
  \<^verbatim>\<open>ContextSwitch\<close>. When no thread is found it returns false to its caller.
\<close>

definition Yield :: "nat \<Rightarrow> bool \<Rightarrow> sys \<Rightarrow> sys" where
  "Yield k only_ready s =
     (let s0 = log_access k Scan s in
      case find_next only_ready (thread_queue s0) of
        None \<Rightarrow> ret k False s0
      | Some (next_thread, q) \<Rightarrow>
          (let s1 = log_access k Erase (s0\<lparr>thread_queue := q\<rparr>) in
           case current_thread (kthreads s1 k) of
             None \<Rightarrow> crash NullDeref s1
           | Some cur \<Rightarrow>
               (let cur1 = (if state cur = kRunning then cur\<lparr>state := kReady\<rparr> else cur);
                    next1 = next_thread\<lparr>state := kRunning\<rparr>;
                    s2 = log_access k PushBack (s1\<lparr>thread_queue := thread_queue s1 @ [cur1]\<rparr>);
                    s3 = upd_kthread k (\<lambda>t. t\<lparr>current_thread := Some next1\<rparr>) s2
                in ContextSwitch k s3)))"

text \<open>
  The loop of \<^verbatim>\<open>GarbageCollect\<close>, lines 179 to 186, run by kernel thread \<open>k\<close>
  from the iterator's position to the end of the pool: the threads it leaves in the
  pool, in order. \<^verbatim>\<open>reset()\<close> destroys a zombie, \<^verbatim>\<open>erase\<close> removes its slot.
\<close>

fun gc_loop :: "nat \<Rightarrow> Thread list \<Rightarrow> sys \<Rightarrow> Thread list \<times> sys" where
  "gc_loop k [] s = ([], s)"
| "gc_loop k (t # ts) s =
     (if state t = kZombie
      then gc_loop k ts (log_access k Erase (Thread_dtor t s))
      else (case gc_loop k ts s of (r, s1) \<Rightarrow> (t # r, s1)))"

definition GarbageCollect :: "nat \<Rightarrow> sys \<Rightarrow> sys" where
  "GarbageCollect k s =
     (case gc_loop k (thread_queue s) s of (q, s1) \<Rightarrow> s1\<lparr>thread_queue := q\<rparr>)"

text \<open>
  \<^verbatim>\<open>Yield\<close>, lines 165 to 168: what a thread does when it is switched back to.
\<close>

definition Yield_resume :: "nat \<Rightarrow> sys \<Rightarrow> sys" where
  "Yield_resume k s = ret k True (GarbageCollect k s)"

text \<open>
  Modelled from the spec: the default argument of \<^verbatim>\<open>Yield\<close> is declared in
  chloros.h, which is not under src/. \<^verbatim>\<open>Spawn\<close> and \<^verbatim>\<open>ThreadEntry\<close> call
  \<^verbatim>\<open>Yield()\<close>, which the spec describes as handing control to any runnable thread,
  the one just created included: \<^verbatim>\<open>only_ready\<close> is false.
\<close>

definition Yield_default :: bool where
  "Yield_default = False"

text \<open>The address of \<^verbatim>\<open>((uint64_t*)stack)[idx]\<close>.\<close>

definition slot :: "64 word \<Rightarrow> int \<Rightarrow> 64 word" where
  "slot base idx = base + 8 * word_of_int idx"

text \<open>
  \<^verbatim>\<open>Spawn\<close>, lines 106 to 124: the new thread, its primed stack and its
  insertion at the front of the pool, before the call of \<^verbatim>\<open>Yield\<close>. Writing
  through a null \<^verbatim>\<open>stack\<close> (malloc failed) kills the process: \<open>Inl\<close> holds the
  state it dies in, \<open>Inr\<close> the state in which \<^verbatim>\<open>Spawn\<close> goes on. The primed stack
  makes the first switch to the thread continue at \<^verbatim>\<open>start_thread\<close>.
\<close>

definition Spawn_setup :: "program \<Rightarrow> nat \<Rightarrow> 64 word \<Rightarrow> 64 word \<Rightarrow> sys \<Rightarrow> sys + sys" where
  "Spawn_setup P k fn arg s =
     (let (new_thread, s1) = Thread_ctor True s in
      if stack new_thread = 0 then Inl (crash NullDeref s1)
      else
        (let idx = kStackSize div 8 - 1;
             idx = idx - 1;
             m1 = (memory s1)(slot (stack new_thread) idx \<mapsto> arg);
             idx = idx - 1;
             m2 = m1(slot (stack new_thread) idx \<mapsto> fn);
             idx = idx - 1;
             m3 = m2(slot (stack new_thread) idx \<mapsto> StartThread P);
             new_thread = new_thread\<lparr>ctxt := (ctxt new_thread)\<lparr>rsp := Some (slot (stack new_thread) idx)\<rparr>,
                                     resume := [InStartThread]\<rparr>
         in Inr (log_access k Insert
                   (s1\<lparr>memory := m3, thread_queue := new_thread # thread_queue s1\<rparr>))))"

text \<open>\<^verbatim>\<open>Spawn\<close>, lines 105 to 127: the setup, then \<^verbatim>\<open>Yield()\<close>.\<close>

definition Spawn :: "program \<Rightarrow> nat \<Rightarrow> 64 word \<Rightarrow> 64 word \<Rightarrow> sys \<Rightarrow> sys" where
  "Spawn P k fn arg s =
     (case Spawn_setup P k fn arg s of
        Inl dead \<Rightarrow> dead
      | Inr s2 \<Rightarrow> Yield k Yield_default (push k InSpawn s2))"

text \<open>\<^verbatim>\<open>Wait\<close>, lines 171 to 176: the entry, and the loop test once \<^verbatim>\<open>Yield(true)\<close> has returned.\<close>

definition Wait :: "nat \<Rightarrow> sys \<Rightarrow> sys" where
  "Wait k s =
     (let s1 = set_current_state k kWaiting s in
      if crashed s1 \<noteq> None then s1 else Yield k True (push k InWait s1))"

definition Wait_loop :: "nat \<Rightarrow> sys \<Rightarrow> sys" where
  "Wait_loop k s =
     (if rax (kthreads s k)
      then (let s1 = set_current_state k kWaiting s in
            if crashed s1 \<noteq> None then s1 else Yield k True (push k InWait s1))
      else s)"

text \<open>
  \<^verbatim>\<open>GetThreadCount\<close>, lines 189 to 202: the counting loop, and the call under
  \<^verbatim>\<open>queue_lock\<close>. The two counters are C ints; they are integers here, as a pool
  of 2^31 threads is out of reach.
\<close>

fun count_loop :: "Thread list \<Rightarrow> int \<times> int \<Rightarrow> int \<times> int" where
  "count_loop [] (ready, zombie) = (ready, zombie)"
| "count_loop (i # q) (ready, zombie) =
     (if state i = kZombie then count_loop q (ready, zombie + 1)
      else count_loop q (ready + 1, zombie))"

definition GetThreadCount :: "nat \<Rightarrow> sys \<Rightarrow> (int \<times> int) \<times> sys" where
  "GetThreadCount k s =
     (let s1 = log_access k Lock s;
          r = count_loop (thread_queue s1) (0, 0);
          s2 = log_access k Scan s1
      in (r, log_access k Unlock s2))"

text \<open>
  \<^verbatim>\<open>ThreadEntry\<close>, lines 204 to 212: the call of \<^verbatim>\<open>fn(arg)\<close>, then what
  follows its return, then what follows the return of \<^verbatim>\<open>Yield()\<close>.
\<close>

definition ThreadEntry :: "program \<Rightarrow> nat \<Rightarrow> 64 word \<Rightarrow> 64 word \<Rightarrow> sys \<Rightarrow> sys" where
  "ThreadEntry P k fn arg s = push k (InUser (body P fn arg)) (push k InThreadEntry_fn s)"

definition ThreadEntry_exit :: "nat \<Rightarrow> sys \<Rightarrow> sys" where
  "ThreadEntry_exit k s =
     (let s1 = set_current_state k kZombie s in
      if crashed s1 \<noteq> None then s1 else Yield k Yield_default (push k InThreadEntry_assert s1))"

definition ThreadEntry_assert :: "sys \<Rightarrow> sys" where
  "ThreadEntry_assert s = crash AssertFailed s"

text \<open>
  Modelled from the spec: \<^verbatim>\<open>start_thread\<close> is assembly that is not under src/.
  It is entered by the return of \<^verbatim>\<open>context_switch\<close> on a primed stack, takes
  \<^verbatim>\<open>fn\<close> and \<^verbatim>\<open>arg\<close> from the two slots above the saved stack pointer and
  calls \<^verbatim>\<open>ThreadEntry(fn, arg)\<close>.
\<close>

definition start_thread :: "program \<Rightarrow> nat \<Rightarrow> sys \<Rightarrow> sys" where
  "start_thread P k s =
     (case current_thread (kthreads s k) of
        None \<Rightarrow> crash NullDeref s
      | Some c \<Rightarrow>
          (case rsp (ctxt c) of
             None \<Rightarrow> crash NullDeref s
           | Some sp \<Rightarrow>
               (case (memory s (sp + 8), memory s (sp + 16)) of
                  (Some fn, Some arg) \<Rightarrow> ThreadEntry P k fn arg s
                | _ \<Rightarrow> crash NullDeref s)))"

section \<open>Running client code\<close>

text \<open>One statement of client code, run by kernel thread \<open>k\<close>.\<close>

fun exec_cmd :: "program \<Rightarrow> nat \<Rightarrow> cmd \<Rightarrow> sys \<Rightarrow> sys" where
  "exec_cmd P k CInitialize s = Initialize k s"
| "exec_cmd P k (CSpawn fn arg) s = Spawn P k fn arg s"
| "exec_cmd P k (CYield only_ready) s = Yield k only_ready s"
| "exec_cmd P k CWait s = Wait k s"
| "exec_cmd P k CIncr s = s\<lparr>counter := counter s + 1\<rparr>"
| "exec_cmd P k CGetThreadCount s =
     (case GetThreadCount k s of (r, s1) \<Rightarrow> s1\<lparr>counts := counts s1 @ [r]\<rparr>)"

text \<open>
  The innermost frame of kernel thread \<open>k\<close> continues, with the frames below it as
  its callers. A dead process, and a kernel thread whose outermost function has
  returned, do nothing.
\<close>

fun continue :: "program \<Rightarrow> nat \<Rightarrow> frame \<Rightarrow> sys \<Rightarrow> sys" where
  "continue P k (InUser []) s = s"
| "continue P k (InUser (c # cs)) s = exec_cmd P k c (push k (InUser cs) s)"
| "continue P k InYield s = Yield_resume k s"
| "continue P k InSpawn s = s"
| "continue P k InWait s = Wait_loop k s"
| "continue P k InThreadEntry_fn s = ThreadEntry_exit k s"
| "continue P k InThreadEntry_assert s = ThreadEntry_assert s"
| "continue P k InStartThread s = start_thread P k s"

definition step :: "program \<Rightarrow> nat \<Rightarrow> sys \<Rightarrow> sys" where
  "step P k s =
     (if crashed s \<noteq> None then s
      else (case live (kthreads s k) of
              [] \<Rightarrow> s
            | f # fs \<Rightarrow> continue P k f (upd_kthread k (\<lambda>t. t\<lparr>live := fs\<rparr>) s)))"

text \<open>
  A schedule names the kernel thread that takes each step. Kernel threads interleave
  between steps; a step, which runs one frame up to its next call, return or switch, is
  not interrupted.
\<close>

fun run :: "program \<Rightarrow> nat list \<Rightarrow> sys \<Rightarrow> sys" where
  "run P [] s = s"
| "run P (k # ks) s = run P ks (step P k s)"

text \<open>
  The process at start: an empty pool, \<^verbatim>\<open>Thread::next_id\<close> zero, every
  thread-local zero, and kernel thread \<open>k\<close> about to run \<open>mains k\<close>.
\<close>

definition boot :: "(nat \<Rightarrow> cmd list) \<Rightarrow> 64 word list \<Rightarrow> sys" where
  "boot mains supply =
     \<lparr>thread_queue = [], next_id = 0,
      kthreads = (\<lambda>k. \<lparr>current_thread = None, initial_thread_id = 0,
                         live = [InUser (mains k)], rax = False\<rparr>),
      memory = Map.empty, malloc_supply = supply, allocated = [], freed = [], accesses = [],
      counter = 0, counts = [], crashed = None\<rparr>"

text \<open>
  Fixtures of the concrete runs: a thread object as the constructor leaves it but for its
  identifier and state, and a process that has just started and runs no client code.
\<close>

definition sample_thread :: "64 word \<Rightarrow> State \<Rightarrow> Thread" where
  "sample_thread i st =
     \<lparr>thread_id = i, state = st, stack = 0,
      ctxt = \<lparr>rsp = None, mxcsr = 0x1F80, x87 = 0x037F\<rparr>, resume = []\<rparr>"

definition idle :: sys where
  "idle = boot (\<lambda>k. []) []"

text \<open>
  A process whose pool is \<open>q\<close> and whose kernel thread 0 is running thread \<open>c\<close>, with
  no frame of client code left to return to; and a client program whose every function
  is \<^verbatim>\<open>++counter\<close>.
\<close>

definition sample_sys :: "Thread list \<Rightarrow> Thread \<Rightarrow> sys" where
  "sample_sys q c =
     upd_kthread 0 (\<lambda>t. t\<lparr>current_thread := Some c, live := []\<rparr>) (idle\<lparr>thread_queue := q\<rparr>)"

definition incr_program :: program where
  "incr_program = \<lparr>StartThread = 0x401000, body = (\<lambda>fn arg. [CIncr])\<rparr>"

text \<open>
  The run of the spec's scenario: kernel thread 0 calls Initialize, Spawn(fn, arg), then
  Yield(true) \<open>n\<close> times, then GetThreadCount; malloc has the block \<open>p\<close> to give.
\<close>

definition scenario :: "64 word \<Rightarrow> 64 word \<Rightarrow> nat \<Rightarrow> 64 word \<Rightarrow> sys" where
  "scenario fn arg n p =
     boot (\<lambda>k. if k = 0
               then [CInitialize, CSpawn fn arg] @ replicate n (CYield True) @ [CGetThreadCount]
               else [])
          [p]"

text \<open>
  No thread has returned from the Yield that ends \<^verbatim>\<open>ThreadEntry\<close>: the assertion
  of line 211 has not fired, no kernel thread has that return on its call stack, and
  every thread of the pool that is suspended in that Yield is a Zombie.
\<close>

definition trampoline_parked :: "sys \<Rightarrow> bool" where
  "trampoline_parked s \<longleftrightarrow>
     crashed s \<noteq> Some AssertFailed
     \<and> (\<forall>t\<in>set (thread_queue s). InThreadEntry_assert \<in> set (resume t) \<longrightarrow> state t = kZombie)
     \<and> (\<forall>k. InThreadEntry_assert \<notin> set (live (kthreads s k)))"

text \<open>
  Along a schedule, whenever a kernel thread is about to run the exit of
  \<^verbatim>\<open>ThreadEntry\<close> (its user function has just returned), the scan of the Yield it
  will call finds a thread in the pool.
\<close>

fun exits_find_thread :: "program \<Rightarrow> nat list \<Rightarrow> sys \<Rightarrow> bool" where
  "exits_find_thread P [] s = True"
| "exits_find_thread P (k # ks) s =
     ((case live (kthreads s k) of
         InThreadEntry_fn # fs \<Rightarrow> find_next Yield_default (thread_queue s) \<noteq> None
       | _ \<Rightarrow> True)
      \<and> exits_find_thread P ks (step P k s))"

text \<open>
  Two kernel threads: 0 calls Initialize and Spawn, 1 calls Initialize and Yield(false).
\<close>

definition two_contexts :: sys where
  "two_contexts =
     boot (\<lambda>k. if k = 0 then [CInitialize, CSpawn 0x402000 7]
               else if k = 1 then [CInitialize, CYield False]
               else [])
          [0x7F0000000000]"

section \<open>The scan of Yield\<close>

lemma find_next_None_iff:
  "find_next b q = None \<longleftrightarrow>
     (\<forall>t\<in>set q. \<not> (state t = kReady \<or> (\<not> b \<and> state t = kWaiting)))"
  by (induction q) (auto split: option.splits)

lemma find_next_Some_split:
  "find_next b q = Some (t, q') \<Longrightarrow>
     \<exists>pre post. q = pre @ t # post \<and> q' = pre @ post \<and>
        (\<forall>u\<in>set pre. \<not> (state u = kReady \<or> (\<not> b \<and> state u = kWaiting))) \<and>
        (state t = kReady \<or> (\<not> b \<and> state t = kWaiting))"
proof (induction q arbitrary: q')
  case Nil
  then show ?case by simp
next
  case (Cons a q)
  show ?case
  proof (cases "state a = kReady \<or> (\<not> b \<and> state a = kWaiting)")
    case True
    with Cons.prems have "t = a" "q' = q" by (auto split: if_splits)
    with True show ?thesis by (intro exI[of _ "[]"] exI[of _ q]) auto
  next
    case False
    with Cons.prems obtain r where r: "find_next b q = Some (t, r)" "q' = a # r"
      by (auto split: option.splits if_splits)
    from Cons.IH[OF r(1)] obtain pre post where
      "q = pre @ t # post" "r = pre @ post"
      "\<forall>u\<in>set pre. \<not> (state u = kReady \<or> (\<not> b \<and> state u = kWaiting))"
      "state t = kReady \<or> (\<not> b \<and> state t = kWaiting)" by blast
    with False r(2) show ?thesis
      by (intro exI[of _ "a # pre"] exI[of _ post]) auto
  qed
qed

lemma Yield_none:
  "find_next b (thread_queue s) = None \<Longrightarrow> Yield k b s = ret k False (log_access k Scan s)"
  by (simp add: Yield_def log_access_def)

lemma Yield_some:
  "find_next b (thread_queue s) = Some (t, q') \<Longrightarrow> current_thread (kthreads s k) = Some c \<Longrightarrow>
   Yield k b s =
     s\<lparr>thread_queue :=
         q' @ [(if state c = kRunning then c\<lparr>state := kReady\<rparr> else c)
                 \<lparr>resume := InYield # live (kthreads s k)\<rparr>],
       kthreads := (kthreads s)
         (k := (kthreads s k)\<lparr>current_thread := Some (t\<lparr>state := kRunning\<rparr>), live := resume t\<rparr>),
       accesses := accesses s @ [(k, Scan), (k, Erase), (k, PushBack)]\<rparr>"
  by (simp add: Yield_def log_access_def ContextSwitch_def upd_kthread_def Let_def)

text \<open>
  C1. Yield(only_ready) scans the pool front to back and takes the first thread that is
  Ready, or, when only_ready is false, Ready or Waiting: the threads before the one taken
  are not eligible, the one taken is, and the pool keeps the others in order. The thread
  taken is never a Zombie, and never Waiting when only_ready is true; it is the one
  Yield makes current. The scan finds nothing exactly when no thread of the pool is
  eligible, and then Yield returns false, the call stack of every kernel thread is the
  one it had (no control transfer), and the pool, every current thread and the crash
  flag are unchanged.
\<close>

theorem C1_yield_selects_first_eligible:
  "(find_next only_ready q = None \<longleftrightarrow>
      (\<forall>t\<in>set q. \<not> (state t = kReady \<or> (\<not> only_ready \<and> state t = kWaiting))))
   \<and> (\<forall>t q'. find_next only_ready q = Some (t, q') \<longrightarrow>
        (\<exists>pre post. q = pre @ t # post \<and> q' = pre @ post \<and>
           (\<forall>u\<in>set pre. \<not> (state u = kReady \<or> (\<not> only_ready \<and> state u = kWaiting))))
        \<and> (state t = kReady \<or> (\<not> only_ready \<and> state t = kWaiting))
        \<and> state t \<noteq> kZombie
        \<and> (only_ready \<longrightarrow> state t \<noteq> kWaiting))
   \<and> (\<forall>t q' c. find_next only_ready (thread_queue s) = Some (t, q')
          \<and> current_thread (kthreads s k) = Some c \<longrightarrow>
        current_thread (kthreads (Yield k only_ready s) k) = Some (t\<lparr>state := kRunning\<rparr>))
   \<and> ((\<forall>t\<in>set (thread_queue s).
          \<not> (state t = kReady \<or> (\<not> only_ready \<and> state t = kWaiting))) \<longrightarrow>
        rax (kthreads (Yield k only_ready s) k) = False
        \<and> thread_queue (Yield k only_ready s) = thread_queue s
        \<and> crashed (Yield k only_ready s) = crashed s
        \<and> (\<forall>j. current_thread (kthreads (Yield k only_ready s) j) = current_thread (kthreads s j)
               \<and> live (kthreads (Yield k only_ready s) j) = live (kthreads s j)))"
proof (intro conjI allI impI)
  show "find_next only_ready q = None \<longleftrightarrow>
      (\<forall>t\<in>set q. \<not> (state t = kReady \<or> (\<not> only_ready \<and> state t = kWaiting)))"
    by (rule find_next_None_iff)
next
  fix t q'
  assume f: "find_next only_ready q = Some (t, q')"
  from find_next_Some_split[OF f] obtain pre post where
    sp: "q = pre @ t # post" "q' = pre @ post"
      "\<forall>u\<in>set pre. \<not> (state u = kReady \<or> (\<not> only_ready \<and> state u = kWaiting))"
    and el: "state t = kReady \<or> (\<not> only_ready \<and> state t = kWaiting)" by blast
  from sp show "\<exists>pre post. q = pre @ t # post \<and> q' = pre @ post \<and>
           (\<forall>u\<in>set pre. \<not> (state u = kReady \<or> (\<not> only_ready \<and> state u = kWaiting)))"
    by blast
  from el show "state t = kReady \<or> (\<not> only_ready \<and> state t = kWaiting)" .
  from el show "state t \<noteq> kZombie" by auto
  { assume only_ready with el show "state t \<noteq> kWaiting" by auto }
next
  fix t q' c
  assume "find_next only_ready (thread_queue s) = Some (t, q')
          \<and> current_thread (kthreads s k) = Some c"
  then show "current_thread (kthreads (Yield k only_ready s) k) = Some (t\<lparr>state := kRunning\<rparr>)"
    by (simp add: Yield_some)
next
  assume "\<forall>t\<in>set (thread_queue s).
          \<not> (state t = kReady \<or> (\<not> only_ready \<and> state t = kWaiting))"
  then have y: "Yield k only_ready s = ret k False (log_access k Scan s)"
    using find_next_None_iff[of only_ready "thread_queue s"] by (simp add: Yield_none)
  show "rax (kthreads (Yield k only_ready s) k) = False"
    by (simp add: y ret_def upd_kthread_def)
  show "thread_queue (Yield k only_ready s) = thread_queue s"
    by (simp add: y ret_def upd_kthread_def log_access_def)
  show "crashed (Yield k only_ready s) = crashed s"
    by (simp add: y ret_def upd_kthread_def log_access_def)
  fix j
  show "current_thread (kthreads (Yield k only_ready s) j) = current_thread (kthreads s j)"
    by (simp add: y ret_def upd_kthread_def log_access_def)
  show "live (kthreads (Yield k only_ready s) j) = live (kthreads s j)"
    by (simp add: y ret_def upd_kthread_def log_access_def)
qed

theorem C1_yield_selects_first_eligible_witness:
  "find_next True [sample_thread 1 kZombie, sample_thread 2 kWaiting,
                   sample_thread 3 kReady, sample_thread 4 kReady]
     = Some (sample_thread 3 kReady,
             [sample_thread 1 kZombie, sample_thread 2 kWaiting, sample_thread 4 kReady])
   \<and> state (sample_thread 3 kReady) \<noteq> kZombie
   \<and> state (sample_thread 3 kReady) \<noteq> kWaiting
   \<and> find_next True [sample_thread 1 kZombie, sample_thread 2 kWaiting] = None
   \<and> rax (kthreads (Yield 0 True
        (idle\<lparr>thread_queue := [sample_thread 1 kZombie, sample_thread 2 kWaiting]\<rparr>)) 0) = False
   \<and> thread_queue (Yield 0 True
        (idle\<lparr>thread_queue := [sample_thread 1 kZombie, sample_thread 2 kWaiting]\<rparr>))
       = [sample_thread 1 kZombie, sample_thread 2 kWaiting]"
  using C1_yield_selects_first_eligible
          [of True "[sample_thread 1 kZombie, sample_thread 2 kWaiting,
                     sample_thread 3 kReady, sample_thread 4 kReady]"
              "idle\<lparr>thread_queue := [sample_thread 1 kZombie, sample_thread 2 kWaiting]\<rparr>" 0]
  by (simp add: sample_thread_def)

section \<open>Reclamation\<close>

lemma gc_loop_eq:
  "gc_loop k q s =
     (filter (\<lambda>t. state t \<noteq> kZombie) q,
      s\<lparr>freed := freed s @ filter (\<lambda>p. p \<noteq> 0) (map stack (filter (\<lambda>t. state t = kZombie) q)),
        accesses := accesses s @ map (\<lambda>t. (k, Erase)) (filter (\<lambda>t. state t = kZombie) q)\<rparr>)"
  by (induction q arbitrary: s)
     (simp_all add: log_access_def Thread_dtor_def free_def)

lemma GarbageCollect_eq:
  "GarbageCollect k s =
     s\<lparr>thread_queue := filter (\<lambda>t. state t \<noteq> kZombie) (thread_queue s),
       freed := freed s @ filter (\<lambda>p. p \<noteq> 0)
                  (map stack (filter (\<lambda>t. state t = kZombie) (thread_queue s))),
       accesses := accesses s @ map (\<lambda>t. (k, Erase))
                  (filter (\<lambda>t. state t = kZombie) (thread_queue s))\<rparr>"
  by (simp add: GarbageCollect_def gc_loop_eq)

lemma count_loop_eq:
  "count_loop q (r, z) =
     (r + int (length (filter (\<lambda>t. state t \<noteq> kZombie) q)),
      z + int (length (filter (\<lambda>t. state t = kZombie) q)))"
  by (induction q arbitrary: r z) auto

lemma GarbageCollect_twice: "GarbageCollect j (GarbageCollect k s) = GarbageCollect k s"
  by (simp add: GarbageCollect_eq)

lemma GarbageCollect_many: "(GarbageCollect j ^^ n) (GarbageCollect k s) = GarbageCollect k s"
  by (induction n) (simp_all add: GarbageCollect_twice)

text \<open>
  C8. GarbageCollect leaves in the pool exactly the threads that are not Zombie, in their
  order, and passes to free the stack of every Zombie of the pool that owns one (freeing
  a null stack does nothing), each once and in pool order. It touches nothing else of
  the process but the access log and never kills it. A second pass right after the first,
  by any kernel thread, changes nothing at all: the pool, the log of freed stacks and the
  counts GetThreadCount reports are the same, the zombie count being 0; and so for any
  number of further passes.
\<close>

theorem C8_garbage_collect_exact_and_idempotent:
  "thread_queue (GarbageCollect k s) = filter (\<lambda>t. state t \<noteq> kZombie) (thread_queue s)
   \<and> freed (GarbageCollect k s) =
       freed s @ filter (\<lambda>p. p \<noteq> 0) (map stack (filter (\<lambda>t. state t = kZombie) (thread_queue s)))
   \<and> kthreads (GarbageCollect k s) = kthreads s
   \<and> memory (GarbageCollect k s) = memory s
   \<and> crashed (GarbageCollect k s) = crashed s
   \<and> GarbageCollect j (GarbageCollect k s) = GarbageCollect k s
   \<and> (GarbageCollect j ^^ n) (GarbageCollect k s) = GarbageCollect k s
   \<and> freed (GarbageCollect j (GarbageCollect k s)) = freed (GarbageCollect k s)
   \<and> fst (GetThreadCount i (GarbageCollect j (GarbageCollect k s)))
       = fst (GetThreadCount i (GarbageCollect k s))
   \<and> snd (fst (GetThreadCount i (GarbageCollect k s))) = 0"
proof (intro conjI)
  show "thread_queue (GarbageCollect k s) = filter (\<lambda>t. state t \<noteq> kZombie) (thread_queue s)"
    by (simp add: GarbageCollect_eq)
  show "freed (GarbageCollect k s) =
       freed s @ filter (\<lambda>p. p \<noteq> 0) (map stack (filter (\<lambda>t. state t = kZombie) (thread_queue s)))"
    by (simp add: GarbageCollect_eq)
  show "kthreads (GarbageCollect k s) = kthreads s" by (simp add: GarbageCollect_eq)
  show "memory (GarbageCollect k s) = memory s" by (simp add: GarbageCollect_eq)
  show "crashed (GarbageCollect k s) = crashed s" by (simp add: GarbageCollect_eq)
  show "GarbageCollect j (GarbageCollect k s) = GarbageCollect k s"
    by (rule GarbageCollect_twice)
  show "(GarbageCollect j ^^ n) (GarbageCollect k s) = GarbageCollect k s"
    by (rule GarbageCollect_many)
  show "freed (GarbageCollect j (GarbageCollect k s)) = freed (GarbageCollect k s)"
    by (simp add: GarbageCollect_twice)
  show "fst (GetThreadCount i (GarbageCollect j (GarbageCollect k s)))
       = fst (GetThreadCount i (GarbageCollect k s))"
    by (simp add: GarbageCollect_twice)
  show "snd (fst (GetThreadCount i (GarbageCollect k s))) = 0"
    by (simp add: GetThreadCount_def Let_def log_access_def count_loop_eq GarbageCollect_eq)
qed

theorem C8_garbage_collect_exact_and_idempotent_witness:
  "thread_queue (GarbageCollect 0 (idle\<lparr>thread_queue :=
       [(sample_thread 1 kZombie)\<lparr>stack := 0x200000\<rparr>, sample_thread 0 kReady,
        (sample_thread 2 kZombie)\<lparr>stack := 0x400000\<rparr>, (sample_thread 3 kWaiting)\<lparr>stack := 0x600000\<rparr>]\<rparr>))
     = [sample_thread 0 kReady, (sample_thread 3 kWaiting)\<lparr>stack := 0x600000\<rparr>]
   \<and> freed (GarbageCollect 0 (idle\<lparr>thread_queue :=
       [(sample_thread 1 kZombie)\<lparr>stack := 0x200000\<rparr>, sample_thread 0 kReady,
        (sample_thread 2 kZombie)\<lparr>stack := 0x400000\<rparr>, (sample_thread 3 kWaiting)\<lparr>stack := 0x600000\<rparr>]\<rparr>))
     = [0x200000, 0x400000]
   \<and> freed (GarbageCollect 0 (GarbageCollect 0 (idle\<lparr>thread_queue :=
       [(sample_thread 1 kZombie)\<lparr>stack := 0x200000\<rparr>, sample_thread 0 kReady,
        (sample_thread 2 kZombie)\<lparr>stack := 0x400000\<rparr>, (sample_thread 3 kWaiting)\<lparr>stack := 0x600000\<rparr>]\<rparr>)))
     = [0x200000, 0x400000]"
  using C8_garbage_collect_exact_and_idempotent
          [of 0 "idle\<lparr>thread_queue :=
       [(sample_thread 1 kZombie)\<lparr>stack := 0x200000\<rparr>, sample_thread 0 kReady,
        (sample_thread 2 kZombie)\<lparr>stack := 0x400000\<rparr>, (sample_thread 3 kWaiting)\<lparr>stack := 0x600000\<rparr>]\<rparr>" 0 1 0]
  by (simp add: sample_thread_def idle_def boot_def)

section \<open>The switch of Yield\<close>

lemma Yield_memory: "memory (Yield k b s) = memory s"
  by (simp add: Yield_def Let_def log_access_def ret_def upd_kthread_def crash_def
        ContextSwitch_def split: option.splits prod.splits)

lemma step_InYield:
  "crashed s = None \<Longrightarrow> live (kthreads s j) = InYield # fs \<Longrightarrow>
   step P j s = ret j True (GarbageCollect j (upd_kthread j (\<lambda>t. t\<lparr>live := fs\<rparr>) s))"
  by (simp add: step_def Yield_resume_def)

text \<open>
  C2. When the scan of Yield finds a thread \<open>t\<close>, leaving the pool \<open>q'\<close>, and \<open>c\<close> is
  the current thread: \<open>c\<close> goes to the back of the pool, as Ready if it was Running and in
  its own state otherwise, holding as saved control state the return into Yield (line
  165) above the call stack of the caller; \<open>t\<close>, set Running, becomes the current thread
  of the kernel thread, which continues with the control state saved in \<open>t\<close>; no other
  kernel thread is touched and the process stays alive. When a kernel thread later
  continues a thread suspended there, it runs GarbageCollect and then returns true to
  the caller of Yield.
\<close>

theorem C2_yield_switch_steps:
  assumes "find_next only_ready (thread_queue s) = Some (t, q')"
    and "current_thread (kthreads s k) = Some c"
  shows "thread_queue (Yield k only_ready s) =
           q' @ [(if state c = kRunning then c\<lparr>state := kReady\<rparr> else c)
                   \<lparr>resume := InYield # live (kthreads s k)\<rparr>]
   \<and> current_thread (kthreads (Yield k only_ready s) k) = Some (t\<lparr>state := kRunning\<rparr>)
   \<and> live (kthreads (Yield k only_ready s) k) = resume t
   \<and> initial_thread_id (kthreads (Yield k only_ready s) k) = initial_thread_id (kthreads s k)
   \<and> (\<forall>j. j \<noteq> k \<longrightarrow> kthreads (Yield k only_ready s) j = kthreads s j)
   \<and> crashed (Yield k only_ready s) = crashed s
   \<and> freed (Yield k only_ready s) = freed s
   \<and> (\<forall>P j fs s'. crashed s' = None \<and> live (kthreads s' j) = InYield # fs \<longrightarrow>
         step P j s' = ret j True (GarbageCollect j (upd_kthread j (\<lambda>t. t\<lparr>live := fs\<rparr>) s'))
         \<and> rax (kthreads (step P j s') j) = True
         \<and> live (kthreads (step P j s') j) = fs
         \<and> thread_queue (step P j s') = filter (\<lambda>t. state t \<noteq> kZombie) (thread_queue s'))"
proof -
  note y = Yield_some[OF assms]
  have a: "thread_queue (Yield k only_ready s) =
           q' @ [(if state c = kRunning then c\<lparr>state := kReady\<rparr> else c)
                   \<lparr>resume := InYield # live (kthreads s k)\<rparr>]"
    by (simp add: y)
  have b: "current_thread (kthreads (Yield k only_ready s) k) = Some (t\<lparr>state := kRunning\<rparr>)"
    "live (kthreads (Yield k only_ready s) k) = resume t"
    "initial_thread_id (kthreads (Yield k only_ready s) k) = initial_thread_id (kthreads s k)"
    "crashed (Yield k only_ready s) = crashed s"
    "freed (Yield k only_ready s) = freed s"
    by (simp_all add: y)
  have c: "\<forall>j. j \<noteq> k \<longrightarrow> kthreads (Yield k only_ready s) j = kthreads s j"
    by (simp add: y)
  have d: "\<forall>P j fs s'. crashed s' = None \<and> live (kthreads s' j) = InYield # fs \<longrightarrow>
         step P j s' = ret j True (GarbageCollect j (upd_kthread j (\<lambda>t. t\<lparr>live := fs\<rparr>) s'))
         \<and> rax (kthreads (step P j s') j) = True
         \<and> live (kthreads (step P j s') j) = fs
         \<and> thread_queue (step P j s') = filter (\<lambda>t. state t \<noteq> kZombie) (thread_queue s')"
    by (auto simp add: step_InYield ret_def upd_kthread_def GarbageCollect_eq)
  from a b c d show ?thesis by blast
qed

theorem C2_yield_switch_steps_witness:
  "find_next True [sample_thread 1 kZombie, (sample_thread 2 kReady)\<lparr>resume := [InYield]\<rparr>]
     = Some ((sample_thread 2 kReady)\<lparr>resume := [InYield]\<rparr>, [sample_thread 1 kZombie])
   \<and> thread_queue (Yield 0 True
        (sample_sys [sample_thread 1 kZombie, (sample_thread 2 kReady)\<lparr>resume := [InYield]\<rparr>]
                    (sample_thread 0 kRunning)))
       = [sample_thread 1 kZombie, (sample_thread 0 kReady)\<lparr>resume := [InYield]\<rparr>]
   \<and> current_thread (kthreads (Yield 0 True
        (sample_sys [sample_thread 1 kZombie, (sample_thread 2 kReady)\<lparr>resume := [InYield]\<rparr>]
                    (sample_thread 0 kRunning))) 0)
       = Some ((sample_thread 2 kRunning)\<lparr>resume := [InYield]\<rparr>)
   \<and> live (kthreads (Yield 0 True
        (sample_sys [sample_thread 1 kZombie, (sample_thread 2 kReady)\<lparr>resume := [InYield]\<rparr>]
                    (sample_thread 0 kRunning))) 0)
       = [InYield]
   \<and> thread_queue (step incr_program 0 (Yield 0 True
        (sample_sys [sample_thread 1 kZombie, (sample_thread 2 kReady)\<lparr>resume := [InYield]\<rparr>]
                    (sample_thread 0 kRunning))))
       = [(sample_thread 0 kReady)\<lparr>resume := [InYield]\<rparr>]
   \<and> rax (kthreads (step incr_program 0 (Yield 0 True
        (sample_sys [sample_thread 1 kZombie, (sample_thread 2 kReady)\<lparr>resume := [InYield]\<rparr>]
                    (sample_thread 0 kRunning)))) 0) = True"
proof -
  let ?q = "[sample_thread 1 kZombie, (sample_thread 2 kReady)\<lparr>resume := [InYield]\<rparr>]"
  let ?s = "sample_sys ?q (sample_thread 0 kRunning)"
  have f: "find_next True (thread_queue ?s)
             = Some ((sample_thread 2 kReady)\<lparr>resume := [InYield]\<rparr>, [sample_thread 1 kZombie])"
    by (simp add: sample_sys_def sample_thread_def upd_kthread_def)
  have c: "current_thread (kthreads ?s 0) = Some (sample_thread 0 kRunning)"
    by (simp add: sample_sys_def upd_kthread_def)
  have l: "live (kthreads ?s 0) = []"
    by (simp add: sample_sys_def upd_kthread_def)
  have q: "thread_queue ?s = ?q"
    by (simp add: sample_sys_def upd_kthread_def)
  have z: "crashed ?s = None"
    by (simp add: sample_sys_def upd_kthread_def idle_def boot_def)
  note C = C2_yield_switch_steps[OF f c]
  have 1: "thread_queue (Yield 0 True ?s)
       = [sample_thread 1 kZombie, (sample_thread 0 kReady)\<lparr>resume := [InYield]\<rparr>]"
    using C l by (simp add: sample_thread_def)
  have 2: "current_thread (kthreads (Yield 0 True ?s) 0)
       = Some ((sample_thread 2 kRunning)\<lparr>resume := [InYield]\<rparr>)"
    using C by (simp add: sample_thread_def)
  have 3: "live (kthreads (Yield 0 True ?s) 0) = [InYield]"
    using C by (simp add: sample_thread_def)
  have 4: "crashed (Yield 0 True ?s) = None"
    using C z by simp
  from C 3 4 have 5: "rax (kthreads (step incr_program 0 (Yield 0 True ?s)) 0) = True
     \<and> thread_queue (step incr_program 0 (Yield 0 True ?s))
         = filter (\<lambda>t. state t \<noteq> kZombie) (thread_queue (Yield 0 True ?s))"
    by blast
  have 6: "thread_queue (step incr_program 0 (Yield 0 True ?s))
       = [(sample_thread 0 kReady)\<lparr>resume := [InYield]\<rparr>]"
    using 5 1 by (simp add: sample_thread_def)
  from f q 1 2 3 5 6 show ?thesis by simp
qed

section \<open>Spawn and the constructor\<close>



lemma Spawn_eq:
  assumes "malloc_supply s = p # ps" "p \<noteq> 0"
  shows "Spawn P k fn arg s =
     Yield k False (push k InSpawn
       (s\<lparr>next_id := next_id s + 1, malloc_supply := ps,
          allocated := allocated s @ [(p, 2097152)],
          memory := (memory s)(p + 0x1FFFF0 \<mapsto> arg, p + 0x1FFFE8 \<mapsto> fn,
                                p + 0x1FFFE0 \<mapsto> StartThread P),
          thread_queue :=
            \<lparr>thread_id = next_id s, state = kWaiting, stack = p,
             ctxt = \<lparr>rsp = Some (p + 0x1FFFE0), mxcsr = 0x1F80, x87 = 0x037F\<rparr>,
             resume = [InStartThread]\<rparr> # thread_queue s,
          accesses := accesses s @ [(k, Insert)]\<rparr>))"
  using assms
  by (simp add: Spawn_def Spawn_setup_def Thread_ctor_def malloc_def kStackSize_def slot_def Let_def
        log_access_def Yield_default_def)

text \<open>
  C5. When malloc returns a block \<open>p\<close>, Spawn(fn, arg) allocates 2 MiB for the stack
  of a new thread, leaves the topmost 8-byte slot (offset 0x1FFFF8) as it was, writes arg,
  fn and the address of start_thread to the three slots below it (offsets 0x1FFFF0,
  0x1FFFE8, 0x1FFFE0), and saves as stack pointer the address of the slot that holds the
  address of start_thread. The thread has mxcsr 0x1F80 and x87 0x037F whatever the state
  of the process, is inserted at the front of the pool, and Spawn then calls Yield with
  its default argument. If the kernel thread has a current thread \<open>c\<close>, that Yield takes
  the new thread: it becomes the current thread, Running, control continues at
  start_thread, and \<open>c\<close> waits at the back of the pool to return into Spawn.
\<close>

theorem C5_spawn_primes_stack_and_yields:
  assumes "malloc_supply s = p # ps" and "p \<noteq> 0"
  shows "Spawn P k fn arg s =
     Yield k Yield_default (push k InSpawn
       (s\<lparr>next_id := next_id s + 1, malloc_supply := ps,
          allocated := allocated s @ [(p, kStackSize)],
          memory := (memory s)(p + 0x1FFFF0 \<mapsto> arg, p + 0x1FFFE8 \<mapsto> fn,
                                p + 0x1FFFE0 \<mapsto> StartThread P),
          thread_queue :=
            \<lparr>thread_id = next_id s, state = kWaiting, stack = p,
             ctxt = \<lparr>rsp = Some (p + 0x1FFFE0), mxcsr = 0x1F80, x87 = 0x037F\<rparr>,
             resume = [InStartThread]\<rparr> # thread_queue s,
          accesses := accesses s @ [(k, Insert)]\<rparr>))
   \<and> kStackSize = 0x200000
   \<and> memory (Spawn P k fn arg s) (p + 0x1FFFF8) = memory s (p + 0x1FFFF8)
   \<and> memory (Spawn P k fn arg s) (p + 0x1FFFF0) = Some arg
   \<and> memory (Spawn P k fn arg s) (p + 0x1FFFE8) = Some fn
   \<and> memory (Spawn P k fn arg s) (p + 0x1FFFE0) = Some (StartThread P)
   \<and> (\<forall>c. current_thread (kthreads s k) = Some c \<longrightarrow>
        current_thread (kthreads (Spawn P k fn arg s) k) =
          Some \<lparr>thread_id = next_id s, state = kRunning, stack = p,
                ctxt = \<lparr>rsp = Some (p + 0x1FFFE0), mxcsr = 0x1F80, x87 = 0x037F\<rparr>,
                resume = [InStartThread]\<rparr>
        \<and> live (kthreads (Spawn P k fn arg s) k) = [InStartThread]
        \<and> thread_queue (Spawn P k fn arg s) =
            thread_queue s @ [(if state c = kRunning then c\<lparr>state := kReady\<rparr> else c)
                                \<lparr>resume := InYield # InSpawn # live (kthreads s k)\<rparr>])"
proof -
  note e = Spawn_eq[OF assms, of P k fn arg]
  have 1: "Spawn P k fn arg s =
     Yield k Yield_default (push k InSpawn
       (s\<lparr>next_id := next_id s + 1, malloc_supply := ps,
          allocated := allocated s @ [(p, kStackSize)],
          memory := (memory s)(p + 0x1FFFF0 \<mapsto> arg, p + 0x1FFFE8 \<mapsto> fn,
                                p + 0x1FFFE0 \<mapsto> StartThread P),
          thread_queue :=
            \<lparr>thread_id = next_id s, state = kWaiting, stack = p,
             ctxt = \<lparr>rsp = Some (p + 0x1FFFE0), mxcsr = 0x1F80, x87 = 0x037F\<rparr>,
             resume = [InStartThread]\<rparr> # thread_queue s,
          accesses := accesses s @ [(k, Insert)]\<rparr>))"
    by (simp add: e Yield_default_def kStackSize_def)
  have 2: "kStackSize = 0x200000" by (simp add: kStackSize_def)
  have 3: "memory (Spawn P k fn arg s) (p + 0x1FFFF8) = memory s (p + 0x1FFFF8)"
    "memory (Spawn P k fn arg s) (p + 0x1FFFF0) = Some arg"
    "memory (Spawn P k fn arg s) (p + 0x1FFFE8) = Some fn"
    "memory (Spawn P k fn arg s) (p + 0x1FFFE0) = Some (StartThread P)"
    by (simp_all add: e Yield_memory push_def upd_kthread_def)
  have 4: "\<forall>c. current_thread (kthreads s k) = Some c \<longrightarrow>
        current_thread (kthreads (Spawn P k fn arg s) k) =
          Some \<lparr>thread_id = next_id s, state = kRunning, stack = p,
                ctxt = \<lparr>rsp = Some (p + 0x1FFFE0), mxcsr = 0x1F80, x87 = 0x037F\<rparr>,
                resume = [InStartThread]\<rparr>
        \<and> live (kthreads (Spawn P k fn arg s) k) = [InStartThread]
        \<and> thread_queue (Spawn P k fn arg s) =
            thread_queue s @ [(if state c = kRunning then c\<lparr>state := kReady\<rparr> else c)
                                \<lparr>resume := InYield # InSpawn # live (kthreads s k)\<rparr>]"
  proof (intro allI impI)
    fix c assume c: "current_thread (kthreads s k) = Some c"
    let ?new = "\<lparr>thread_id = next_id s, state = kWaiting, stack = p,
             ctxt = \<lparr>rsp = Some (p + 0x1FFFE0), mxcsr = 0x1F80, x87 = 0x037F\<rparr>,
             resume = [InStartThread]\<rparr>"
    let ?s2 = "push k InSpawn
       (s\<lparr>next_id := next_id s + 1, malloc_supply := ps,
          allocated := allocated s @ [(p, 2097152)],
          memory := (memory s)(p + 0x1FFFF0 \<mapsto> arg, p + 0x1FFFE8 \<mapsto> fn,
                                p + 0x1FFFE0 \<mapsto> StartThread P),
          thread_queue := ?new # thread_queue s,
          accesses := accesses s @ [(k, Insert)]\<rparr>)"
    have f: "find_next False (thread_queue ?s2) = Some (?new, thread_queue s)"
      by (simp add: push_def upd_kthread_def)
    have c2: "current_thread (kthreads ?s2 k) = Some c"
      using c by (simp add: push_def upd_kthread_def)
    have l2: "live (kthreads ?s2 k) = InSpawn # live (kthreads s k)"
      by (simp add: push_def upd_kthread_def)
    note y = Yield_some[OF f c2]
    show "current_thread (kthreads (Spawn P k fn arg s) k) =
          Some \<lparr>thread_id = next_id s, state = kRunning, stack = p,
                ctxt = \<lparr>rsp = Some (p + 0x1FFFE0), mxcsr = 0x1F80, x87 = 0x037F\<rparr>,
                resume = [InStartThread]\<rparr>
        \<and> live (kthreads (Spawn P k fn arg s) k) = [InStartThread]
        \<and> thread_queue (Spawn P k fn arg s) =
            thread_queue s @ [(if state c = kRunning then c\<lparr>state := kReady\<rparr> else c)
                                \<lparr>resume := InYield # InSpawn # live (kthreads s k)\<rparr>]"
      unfolding e y using l2 by simp
  qed
  from 1 2 3 4 show ?thesis by blast
qed

theorem C5_spawn_primes_stack_and_yields_witness:
  "malloc_supply ((sample_sys [] (sample_thread 0 kRunning))\<lparr>malloc_supply := [0x7F0000000000]\<rparr>)
     = [0x7F0000000000]
   \<and> memory (Spawn incr_program 0 0x402000 7
        ((sample_sys [] (sample_thread 0 kRunning))\<lparr>malloc_supply := [0x7F0000000000]\<rparr>))
        0x7F00001FFFF0 = Some 7
   \<and> memory (Spawn incr_program 0 0x402000 7
        ((sample_sys [] (sample_thread 0 kRunning))\<lparr>malloc_supply := [0x7F0000000000]\<rparr>))
        0x7F00001FFFE8 = Some 0x402000
   \<and> memory (Spawn incr_program 0 0x402000 7
        ((sample_sys [] (sample_thread 0 kRunning))\<lparr>malloc_supply := [0x7F0000000000]\<rparr>))
        0x7F00001FFFE0 = Some 0x401000
   \<and> live (kthreads (Spawn incr_program 0 0x402000 7
        ((sample_sys [] (sample_thread 0 kRunning))\<lparr>malloc_supply := [0x7F0000000000]\<rparr>)) 0)
       = [InStartThread]
   \<and> thread_queue (Spawn incr_program 0 0x402000 7
        ((sample_sys [] (sample_thread 0 kRunning))\<lparr>malloc_supply := [0x7F0000000000]\<rparr>))
       = [(sample_thread 0 kReady)\<lparr>resume := [InYield, InSpawn]\<rparr>]"
proof -
  let ?s = "(sample_sys [] (sample_thread 0 kRunning))\<lparr>malloc_supply := [0x7F0000000000]\<rparr>"
  have m: "malloc_supply ?s = [0x7F0000000000]" by simp
  have n: "(0x7F0000000000 :: 64 word) \<noteq> 0" by simp
  have c: "current_thread (kthreads ?s 0) = Some (sample_thread 0 kRunning)"
    by (simp add: sample_sys_def upd_kthread_def)
  have l: "live (kthreads ?s 0) = []" "thread_queue ?s = []"
    by (simp_all add: sample_sys_def upd_kthread_def)
  note C = C5_spawn_primes_stack_and_yields[OF m n, of incr_program 0 "0x402000" 7]
  from C have mem:
    "memory (Spawn incr_program 0 0x402000 7 ?s) (0x7F0000000000 + 0x1FFFF0) = Some 7"
    "memory (Spawn incr_program 0 0x402000 7 ?s) (0x7F0000000000 + 0x1FFFE8) = Some 0x402000"
    "memory (Spawn incr_program 0 0x402000 7 ?s) (0x7F0000000000 + 0x1FFFE0)
       = Some (StartThread incr_program)"
    by blast+
  from C c have sw:
    "live (kthreads (Spawn incr_program 0 0x402000 7 ?s) 0) = [InStartThread]"
    "thread_queue (Spawn incr_program 0 0x402000 7 ?s) =
       thread_queue ?s @
         [(if state (sample_thread 0 kRunning) = kRunning
           then (sample_thread 0 kRunning)\<lparr>state := kReady\<rparr> else sample_thread 0 kRunning)
            \<lparr>resume := InYield # InSpawn # live (kthreads ?s 0)\<rparr>]"
    by blast+
  have q: "thread_queue (Spawn incr_program 0 0x402000 7 ?s)
       = [(sample_thread 0 kReady)\<lparr>resume := [InYield, InSpawn]\<rparr>]"
    unfolding sw(2) l by (simp add: sample_thread_def)
  from mem sw(1) q m show ?thesis
    by (simp add: incr_program_def)
qed







section \<open>Runs\<close>

lemmas run_defs = step_def push_def upd_kthread_def ret_def log_access_def crash_def
  set_current_state_def malloc_def free_def Thread_ctor_def Thread_dtor_def Initialize_def
  ContextSwitch_def Yield_def GarbageCollect_def Yield_resume_def Yield_default_def slot_def
  Spawn_def Spawn_setup_def Wait_def Wait_loop_def GetThreadCount_def ThreadEntry_def
  ThreadEntry_exit_def
  ThreadEntry_assert_def start_thread_def boot_def kStackSize_def Let_def

lemma run_append: "run P (a @ b) s = run P b (run P a s)"
  by (induction a arbitrary: s) simp_all

lemma replicate_8: "replicate 8 x = [x, x, x, x, x, x, x, x]"
  by (simp add: numeral_eq_Suc)

lemma replicate_5: "replicate 5 x = [x, x, x, x, x]"
  by (simp add: numeral_eq_Suc)

text \<open>
  The scenario after eight steps of kernel thread 0: Initialize; Spawn up to the switch;
  start_thread; the statement of f; the return of f; the exit of ThreadEntry up to the
  switch; the rest of the Yield that Spawn called, with its GarbageCollect; the return
  of Spawn.
\<close>

lemma scenario_after_spawn:
  assumes "body P fn arg = [CIncr]" "p \<noteq> 0"
  shows "run P (replicate 8 0) (scenario fn arg n p) =
    \<lparr>thread_queue = [], next_id = 2,
      kthreads =
        (\<lambda>k. \<lparr>current_thread = None, initial_thread_id = 0,
                live = [InUser (if k = 0
                                then [CInitialize, CSpawn fn arg] @ replicate n (CYield True)
                                       @ [CGetThreadCount]
                                else [])],
                rax = False\<rparr>)
        (0 := \<lparr>current_thread =
                 Some \<lparr>thread_id = 0, state = kRunning, stack = 0,
                       ctxt = \<lparr>rsp = None, mxcsr = 0x1F80, x87 = 0x037F\<rparr>,
                       resume = [InYield, InSpawn,
                                 InUser (replicate n (CYield True) @ [CGetThreadCount])]\<rparr>,
               initial_thread_id = 0,
               live = [InUser (replicate n (CYield True) @ [CGetThreadCount])],
               rax = True\<rparr>),
      memory = [p + 0x1FFFF0 \<mapsto> arg, p + 0x1FFFE8 \<mapsto> fn, p + 0x1FFFE0 \<mapsto> StartThread P],
      malloc_supply = [], allocated = [(p, 0x200000)], freed = [p],
      accesses = [(0, Insert), (0, Scan), (0, Erase), (0, PushBack), (0, Scan),
                  (0, Erase), (0, PushBack), (0, Erase)],
      counter = 1, counts = [], crashed = None\<rparr>"
  using assms by (simp add: replicate_8 scenario_def run_defs)

lemma step_Yield_True_empty:
  assumes "thread_queue s = []" "crashed s = None"
    and "live (kthreads s k) = InUser (CYield True # cs) # fs"
  shows "step P k s =
     ret k False (log_access k Scan (upd_kthread k (\<lambda>t. t\<lparr>live := InUser cs # fs\<rparr>) s))"
  using assms by (simp add: step_def push_def Yield_def upd_kthread_def log_access_def ret_def)

lemma run_Yield_True_empty:
  "thread_queue s = [] \<Longrightarrow> crashed s = None \<Longrightarrow>
   live (kthreads s k) = InUser (replicate m (CYield True) @ cs) # fs \<Longrightarrow>
   thread_queue (run P (replicate m k) s) = []
   \<and> crashed (run P (replicate m k) s) = None
   \<and> live (kthreads (run P (replicate m k) s) k) = InUser cs # fs
   \<and> counter (run P (replicate m k) s) = counter s
   \<and> counts (run P (replicate m k) s) = counts s
   \<and> freed (run P (replicate m k) s) = freed s
   \<and> (0 < m \<longrightarrow> rax (kthreads (run P (replicate m k) s) k) = False)"
proof (induction m arbitrary: s cs)
  case 0
  then show ?case by simp
next
  case (Suc m)
  have r: "replicate (Suc m) (CYield True) @ cs = replicate m (CYield True) @ (CYield True # cs)"
    by (simp add: replicate_append_same)
  have rr: "replicate (Suc m) k = replicate m k @ [k]"
    by (simp add: replicate_append_same)
  from Suc.prems(3)
  have l: "live (kthreads s k) = InUser (replicate m (CYield True) @ (CYield True # cs)) # fs"
    unfolding r .
  note I = Suc.IH[OF Suc.prems(1,2) l]
  let ?s = "run P (replicate m k) s"
  from I have st: "step P k ?s =
      ret k False (log_access k Scan (upd_kthread k (\<lambda>t. t\<lparr>live := InUser cs # fs\<rparr>) ?s))"
    by (intro step_Yield_True_empty) auto
  show ?case
    unfolding rr run_append using I
    by (simp add: st ret_def log_access_def upd_kthread_def)
qed

lemma step_GetThreadCount_empty:
  assumes "thread_queue s = []" "crashed s = None"
    and "live (kthreads s k) = InUser (CGetThreadCount # cs) # fs"
  shows "counts (step P k s) = counts s @ [(0, 0)]"
  using assms
  by (simp add: step_def push_def GetThreadCount_def upd_kthread_def log_access_def Let_def)

text \<open>The scenario \<open>m\<close> calls of Yield(true) after Spawn has returned.\<close>

lemma scenario_yields:
  assumes "body P fn arg = [CIncr]" "p \<noteq> 0" "m \<le> n"
  shows "thread_queue (run P (replicate (8 + m) 0) (scenario fn arg n p)) = []
   \<and> crashed (run P (replicate (8 + m) 0) (scenario fn arg n p)) = None
   \<and> live (kthreads (run P (replicate (8 + m) 0) (scenario fn arg n p)) 0)
       = [InUser (replicate (n - m) (CYield True) @ [CGetThreadCount])]
   \<and> counter (run P (replicate (8 + m) 0) (scenario fn arg n p)) = 1
   \<and> counts (run P (replicate (8 + m) 0) (scenario fn arg n p)) = []
   \<and> freed (run P (replicate (8 + m) 0) (scenario fn arg n p)) = [p]
   \<and> (0 < m \<longrightarrow> rax (kthreads (run P (replicate (8 + m) 0) (scenario fn arg n p)) 0) = False)"
proof -
  let ?s8 = "run P (replicate 8 0) (scenario fn arg n p)"
  note e = scenario_after_spawn[OF assms(1,2), of n]
  have q: "thread_queue ?s8 = []" "crashed ?s8 = None" "counter ?s8 = 1" "counts ?s8 = []"
    "freed ?s8 = [p]"
    by (simp_all add: e)
  have "replicate n (CYield True) = replicate m (CYield True) @ replicate (n - m) (CYield True)"
    using assms(3) by (simp add: replicate_add[symmetric])
  then have l: "live (kthreads ?s8 0) =
      InUser (replicate m (CYield True) @ (replicate (n - m) (CYield True) @ [CGetThreadCount])) # []"
    by (simp add: e)
  have sp: "replicate (8 + m) (0::nat) = replicate 8 0 @ replicate m 0"
    by (simp add: replicate_add)
  from run_Yield_True_empty[OF q(1,2) l, of P] show ?thesis
    unfolding sp run_append by (simp add: q)
qed

lemma scenario_counts:
  assumes "body P fn arg = [CIncr]" "p \<noteq> 0"
  shows "counts (run P (replicate (8 + n + 1) 0) (scenario fn arg n p)) = [(0, 0)]"
proof -
  have sp: "replicate (8 + n + 1) (0::nat) = replicate (8 + n) 0 @ [0]"
    unfolding replicate_add by simp
  from scenario_yields[OF assms, of n n] show ?thesis
    unfolding sp run_append by (simp add: step_GetThreadCount_empty)
qed

text \<open>
  C9, as stated, fails: in the run with two calls of Yield(true) the counter is 1 as
  soon as Spawn has returned, and the GetThreadCount call after the two calls reports
  no thread at all in the pool, so a zombie count of 0 and not 1.
\<close>

theorem C9_zombie_count_counterexample:
  "counter (run incr_program (replicate 8 0) (scenario 0x402000 7 2 0x7F0000000000)) = 1
   \<and> counts (run incr_program (replicate 11 0) (scenario 0x402000 7 2 0x7F0000000000)) = [(0, 0)]
   \<and> snd (last (counts (run incr_program (replicate 11 0)
                           (scenario 0x402000 7 2 0x7F0000000000)))) \<noteq> 1"
proof -
  have b: "body incr_program 0x402000 7 = [CIncr]" by (simp add: incr_program_def)
  have n: "(0x7F0000000000 :: 64 word) \<noteq> 0" by simp
  from scenario_yields[OF b n, of 0 2]
  have 1: "counter (run incr_program (replicate 8 0) (scenario 0x402000 7 2 0x7F0000000000)) = 1"
    by simp
  from scenario_counts[OF b n, of 2]
  have 2: "counts (run incr_program (replicate 11 0) (scenario 0x402000 7 2 0x7F0000000000))
             = [(0, 0)]"
    by simp
  from 1 2 show ?thesis by simp
qed

text \<open>
  C9, amended. In the run Initialize, Spawn(f, a) with f incrementing the shared counter
  and returning, then \<open>n\<close> calls of Yield(true), then GetThreadCount, all on one kernel
  thread and with malloc returning a block \<open>p\<close>: when Spawn returns the counter is 1
  already, the pool is empty and the stack \<open>p\<close> of the spawned thread has been freed (the
  GarbageCollect pass of the Yield that Spawn called reclaimed the Zombie); every one of
  the calls of Yield(true) returns false and leaves the counter at 1; and GetThreadCount
  reports (0, 0).
\<close>

theorem C9_scenario_counter_and_counts:
  assumes "body P fn arg = [CIncr]" and "p \<noteq> 0"
  shows "counter (run P (replicate 8 0) (scenario fn arg n p)) = 1
   \<and> live (kthreads (run P (replicate 8 0) (scenario fn arg n p)) 0)
       = [InUser (replicate n (CYield True) @ [CGetThreadCount])]
   \<and> thread_queue (run P (replicate 8 0) (scenario fn arg n p)) = []
   \<and> freed (run P (replicate 8 0) (scenario fn arg n p)) = [p]
   \<and> (\<forall>m. 0 < m \<and> m \<le> n \<longrightarrow>
         rax (kthreads (run P (replicate (8 + m) 0) (scenario fn arg n p)) 0) = False
         \<and> counter (run P (replicate (8 + m) 0) (scenario fn arg n p)) = 1
         \<and> crashed (run P (replicate (8 + m) 0) (scenario fn arg n p)) = None)
   \<and> counts (run P (replicate (8 + n + 1) 0) (scenario fn arg n p)) = [(0, 0)]"
proof -
  from scenario_yields[OF assms, of 0 n]
  have 1: "counter (run P (replicate 8 0) (scenario fn arg n p)) = 1"
    "live (kthreads (run P (replicate 8 0) (scenario fn arg n p)) 0)
       = [InUser (replicate n (CYield True) @ [CGetThreadCount])]"
    "thread_queue (run P (replicate 8 0) (scenario fn arg n p)) = []"
    "freed (run P (replicate 8 0) (scenario fn arg n p)) = [p]"
    by simp_all
  have 2: "\<forall>m. 0 < m \<and> m \<le> n \<longrightarrow>
         rax (kthreads (run P (replicate (8 + m) 0) (scenario fn arg n p)) 0) = False
         \<and> counter (run P (replicate (8 + m) 0) (scenario fn arg n p)) = 1
         \<and> crashed (run P (replicate (8 + m) 0) (scenario fn arg n p)) = None"
    using scenario_yields[OF assms] by blast
  from 1 2 scenario_counts[OF assms, of n] show ?thesis by blast
qed

theorem C9_scenario_counter_and_counts_witness:
  "body incr_program 0x402000 7 = [CIncr]
   \<and> counter (run incr_program (replicate 8 0) (scenario 0x402000 7 2 0x7F0000000000)) = 1
   \<and> rax (kthreads (run incr_program (replicate 10 0) (scenario 0x402000 7 2 0x7F0000000000)) 0)
       = False
   \<and> counts (run incr_program (replicate 11 0) (scenario 0x402000 7 2 0x7F0000000000)) = [(0, 0)]"
proof -
  have b: "body incr_program 0x402000 7 = [CIncr]" by (simp add: incr_program_def)
  have n: "(0x7F0000000000 :: 64 word) \<noteq> 0" by simp
  note C = C9_scenario_counter_and_counts[OF b n, of 2]
  from C have 1:
    "counter (run incr_program (replicate 8 0) (scenario 0x402000 7 2 0x7F0000000000)) = 1"
    by blast
  from C have "0 < (2::nat) \<and> (2::nat) \<le> 2 \<longrightarrow>
      rax (kthreads (run incr_program (replicate (8 + 2) 0)
                       (scenario 0x402000 7 2 0x7F0000000000)) 0) = False"
    by blast
  then have 2:
    "rax (kthreads (run incr_program (replicate 10 0) (scenario 0x402000 7 2 0x7F0000000000)) 0)
       = False"
    by simp
  from C have 3:
    "counts (run incr_program (replicate (8 + 2 + 1) 0) (scenario 0x402000 7 2 0x7F0000000000))
       = [(0, 0)]"
    by blast
  from b 1 2 3 show ?thesis by simp
qed

section \<open>Two kernel threads\<close>

text \<open>
  The run of \<open>two_contexts\<close> in which kernel thread 0 calls Initialize, kernel thread 1
  calls Initialize, kernel thread 0 calls Spawn and kernel thread 1 calls Yield(false).
\<close>

lemma two_contexts_run:
  "run incr_program [0, 1, 0, 1] two_contexts =
    \<lparr>thread_queue =
       [\<lparr>thread_id = 1, state = kWaiting, stack = 0,
         ctxt = \<lparr>rsp = None, mxcsr = 0x1F80, x87 = 0x037F\<rparr>,
         resume = [InYield, InUser []]\<rparr>],
     next_id = 3,
     kthreads =
       (\<lambda>k. \<lparr>current_thread = None, initial_thread_id = 0,
               live = [InUser (if k = 0 then [CInitialize, CSpawn 0x402000 7]
                               else if k = 1 then [CInitialize, CYield False]
                               else [])],
               rax = False\<rparr>)
       (0 := \<lparr>current_thread =
                Some \<lparr>thread_id = 2, state = kRunning, stack = 0x7F0000000000,
                      ctxt = \<lparr>rsp = Some 0x7F00001FFFE0, mxcsr = 0x1F80, x87 = 0x037F\<rparr>,
                      resume = [InStartThread]\<rparr>,
              initial_thread_id = 0, live = [InStartThread], rax = False\<rparr>,
        1 := \<lparr>current_thread =
                Some \<lparr>thread_id = 0, state = kRunning, stack = 0,
                      ctxt = \<lparr>rsp = None, mxcsr = 0x1F80, x87 = 0x037F\<rparr>,
                      resume = [InYield, InSpawn, InUser []]\<rparr>,
              initial_thread_id = 1, live = [InYield, InSpawn, InUser []], rax = False\<rparr>),
     memory = [0x7F00001FFFF0 \<mapsto> 7, 0x7F00001FFFE8 \<mapsto> 0x402000,
               0x7F00001FFFE0 \<mapsto> 0x401000],
     malloc_supply = [], allocated = [(0x7F0000000000, 0x200000)], freed = [],
     accesses = [(0, Insert), (0, Scan), (0, Erase), (0, PushBack),
                 (1, Scan), (1, Erase), (1, PushBack)],
     counter = 0, counts = [], crashed = None\<rparr>"
  by (simp add: two_contexts_def incr_program_def run_defs)

lemma kthread_upd_comm:
  "t\<lparr>initial_thread_id := x, rax := r\<rparr> = t\<lparr>rax := r, initial_thread_id := x\<rparr>"
  "t\<lparr>initial_thread_id := x, current_thread := c, live := l\<rparr>
     = t\<lparr>current_thread := c, live := l, initial_thread_id := x\<rparr>"
  by simp_all

lemma Yield_ignores_initial_thread_id:
  "Yield k b (upd_kthread j (\<lambda>t. t\<lparr>initial_thread_id := x\<rparr>) s)
     = upd_kthread j (\<lambda>t. t\<lparr>initial_thread_id := x\<rparr>) (Yield k b s)"
  by (cases "j = k")
     (auto simp add: Yield_def Let_def log_access_def ret_def upd_kthread_def crash_def
        ContextSwitch_def fun_upd_twist kthread_upd_comm split: option.splits prod.splits)

text \<open>
  C3. The code does not keep an initial thread on its kernel thread: Yield never reads
  \<^verbatim>\<open>initial_thread_id\<close>, so it does the same whatever any kernel thread has
  recorded there. In the run above the thread with identifier 0
  is the initial thread recorded by kernel thread 0, kernel thread 1 has recorded the
  thread with identifier 1, and after the Yield(false) of kernel thread 1 the current
  thread of kernel thread 1 is thread 0, Running, continuing inside the Spawn call that
  kernel thread 0 made.
\<close>

theorem C3_initial_thread_taken_by_other_context:
  "initial_thread_id (kthreads (run incr_program [0, 1, 0, 1] two_contexts) 0) = 0
   \<and> initial_thread_id (kthreads (run incr_program [0, 1, 0, 1] two_contexts) 1) = 1
   \<and> map_option thread_id (current_thread (kthreads (run incr_program [0, 1, 0, 1] two_contexts) 1))
       = Some 0
   \<and> map_option state (current_thread (kthreads (run incr_program [0, 1, 0, 1] two_contexts) 1))
       = Some kRunning
   \<and> live (kthreads (run incr_program [0, 1, 0, 1] two_contexts) 1)
       = [InYield, InSpawn, InUser []]
   \<and> crashed (run incr_program [0, 1, 0, 1] two_contexts) = None
   \<and> Yield k b (upd_kthread j (\<lambda>t. t\<lparr>initial_thread_id := x\<rparr>) s)
       = upd_kthread j (\<lambda>t. t\<lparr>initial_thread_id := x\<rparr>) (Yield k b s)"
  unfolding two_contexts_run by (simp add: Yield_ignores_initial_thread_id)

text \<open>
  C4. Only GetThreadCount takes \<^verbatim>\<open>queue_lock\<close>. In the run above the pool is
  inserted into, erased from and pushed to by two kernel threads, and the mutex is never
  locked; a GetThreadCount call locks it around its scan.
\<close>

theorem C4_pool_mutated_without_the_mutex:
  "accesses (run incr_program [0, 1, 0, 1] two_contexts)
     = [(0, Insert), (0, Scan), (0, Erase), (0, PushBack), (1, Scan), (1, Erase), (1, PushBack)]
   \<and> accesses (GarbageCollect 1 (idle\<lparr>thread_queue := [sample_thread 2 kZombie]\<rparr>)) = [(1, Erase)]
   \<and> accesses (snd (GetThreadCount 1 idle)) = [(1, Lock), (1, Scan), (1, Unlock)]"
  unfolding two_contexts_run
  by (simp add: GarbageCollect_eq GetThreadCount_def log_access_def Let_def
        idle_def boot_def sample_thread_def)

section \<open>The end of a thread\<close>

lemma find_next_set:
  assumes "find_next b q = Some (t, q')"
  shows "t \<in> set q" "set q' \<subseteq> set q" "state t \<noteq> kZombie"
proof -
  from find_next_Some_split[OF assms] obtain pre post where
    "q = pre @ t # post" "q' = pre @ post" "state t = kReady \<or> (\<not> b \<and> state t = kWaiting)"
    by blast
  then show "t \<in> set q" "set q' \<subseteq> set q" "state t \<noteq> kZombie" by auto
qed

lemma Yield_crashed:
  "crashed (Yield k b s) = crashed s \<or> crashed (Yield k b s) = Some NullDeref"
  by (simp add: Yield_def Let_def log_access_def ret_def upd_kthread_def crash_def
        ContextSwitch_def split: option.splits prod.splits)

lemma Yield_parked:
  assumes P0: "crashed s \<noteq> Some AssertFailed"
    and P1: "\<forall>t\<in>set (thread_queue s). InThreadEntry_assert \<in> set (resume t) \<longrightarrow> state t = kZombie"
    and P2: "\<forall>j. j \<noteq> k \<longrightarrow> InThreadEntry_assert \<notin> set (live (kthreads s j))"
    and P3: "InThreadEntry_assert \<in> set (live (kthreads s k)) \<longrightarrow>
               (\<exists>c. current_thread (kthreads s k) = Some c \<and> state c = kZombie)
               \<and> find_next b (thread_queue s) \<noteq> None"
  shows "trampoline_parked (Yield k b s)"
proof -
  from P0 Yield_crashed[of k b s] have C: "crashed (Yield k b s) \<noteq> Some AssertFailed" by auto
  show ?thesis
  proof (cases "find_next b (thread_queue s)")
    case None
    with P3 have "InThreadEntry_assert \<notin> set (live (kthreads s k))" by auto
    with P2 have "\<forall>j. InThreadEntry_assert \<notin> set (live (kthreads s j))" by metis
    with P1 P0 show ?thesis
      by (simp add: Yield_none[OF None] trampoline_parked_def ret_def log_access_def upd_kthread_def)
  next
    case (Some a)
    obtain t q' where a: "a = (t, q')" by (cases a)
    note f = Some[unfolded a]
    note fs = find_next_set[OF f]
    from fs P1 have rt: "InThreadEntry_assert \<notin> set (resume t)" by auto
    from fs P1 have q': "\<forall>u\<in>set q'. InThreadEntry_assert \<in> set (resume u) \<longrightarrow> state u = kZombie"
      by auto
    show ?thesis
    proof (cases "current_thread (kthreads s k)")
      case None
      with P3 have "InThreadEntry_assert \<notin> set (live (kthreads s k))" by auto
      with P2 have "\<forall>j. InThreadEntry_assert \<notin> set (live (kthreads s j))" by metis
      with q' show ?thesis using None f
        by (simp add: Yield_def Let_def trampoline_parked_def log_access_def crash_def)
    next
      case (Some c)
      have pushed: "InThreadEntry_assert \<in> set (InYield # live (kthreads s k)) \<longrightarrow>
          state (if state c = kRunning then c\<lparr>state := kReady\<rparr> else c) = kZombie"
        using P3 Some by auto
      show ?thesis
        using q' rt P2 pushed C
        by (auto simp add: Yield_some[OF f Some] trampoline_parked_def)
    qed
  qed
qed

lemma Yield_parked_plain:
  assumes "trampoline_parked s"
  shows "trampoline_parked (Yield k b s)"
  using assms by (intro Yield_parked) (auto simp: trampoline_parked_def)

lemma push_parked:
  assumes "trampoline_parked s" "f \<noteq> InThreadEntry_assert"
  shows "trampoline_parked (push k f s)"
  using assms by (auto simp: trampoline_parked_def push_def upd_kthread_def)

lemma set_current_state_parked:
  assumes "trampoline_parked s"
  shows "trampoline_parked (set_current_state k st s)"
  using assms
  by (auto simp: trampoline_parked_def set_current_state_def upd_kthread_def crash_def
      split: option.splits)

lemma Initialize_parked:
  assumes "trampoline_parked s"
  shows "trampoline_parked (Initialize k s)"
  using assms
  by (auto simp: trampoline_parked_def Initialize_def Thread_ctor_def Let_def upd_kthread_def
        Thread_dtor_def free_def split: option.splits)

lemma Spawn_parked:
  assumes "trampoline_parked s"
  shows "trampoline_parked (Spawn P k fn arg s)"
proof (cases "malloc_supply s")
  case Nil
  with assms show ?thesis
    by (auto simp: Spawn_def Spawn_setup_def Thread_ctor_def malloc_def Let_def crash_def
          trampoline_parked_def)
next
  case (Cons p ps)
  show ?thesis
  proof (cases "p = 0")
    case True
    with Cons assms show ?thesis
      by (auto simp: Spawn_def Spawn_setup_def Thread_ctor_def malloc_def Let_def crash_def
          trampoline_parked_def)
  next
    case False
    show ?thesis
      unfolding Spawn_eq[OF Cons False]
      using assms
      by (intro Yield_parked_plain) (auto simp: trampoline_parked_def push_def upd_kthread_def)
  qed
qed

lemma Wait_parked:
  assumes "trampoline_parked s"
  shows "trampoline_parked (Wait k s)"
  using assms
  by (auto simp: Wait_def Let_def intro!: Yield_parked_plain push_parked set_current_state_parked)

lemma Wait_loop_parked:
  assumes "trampoline_parked s"
  shows "trampoline_parked (Wait_loop k s)"
  using assms
  by (auto simp: Wait_loop_def Let_def intro!: Yield_parked_plain push_parked set_current_state_parked)

lemma Yield_resume_parked:
  assumes "trampoline_parked s"
  shows "trampoline_parked (Yield_resume k s)"
  using assms
  by (auto simp: Yield_resume_def GarbageCollect_eq ret_def upd_kthread_def trampoline_parked_def)

lemma start_thread_parked:
  assumes "trampoline_parked s"
  shows "trampoline_parked (start_thread P k s)"
  using assms
  by (auto simp: start_thread_def ThreadEntry_def push_def upd_kthread_def crash_def
        trampoline_parked_def split: option.splits)

lemma exec_cmd_parked:
  assumes "trampoline_parked s"
  shows "trampoline_parked (exec_cmd P k c s)"
proof (cases c)
  case CInitialize
  with assms show ?thesis by (simp add: Initialize_parked)
next
  case (CSpawn fn arg)
  with assms show ?thesis by (simp add: Spawn_parked)
next
  case (CYield b)
  with assms show ?thesis by (simp add: Yield_parked_plain)
next
  case CWait
  with assms show ?thesis by (simp add: Wait_parked)
next
  case CIncr
  with assms show ?thesis by (simp add: trampoline_parked_def)
next
  case CGetThreadCount
  with assms show ?thesis
    by (simp add: trampoline_parked_def GetThreadCount_def Let_def log_access_def)
qed

lemma ThreadEntry_exit_parked:
  assumes "trampoline_parked s" "find_next Yield_default (thread_queue s) \<noteq> None"
  shows "trampoline_parked (ThreadEntry_exit k s)"
proof (cases "crashed (set_current_state k kZombie s) \<noteq> None")
  case True
  then have "ThreadEntry_exit k s = set_current_state k kZombie s"
    by (simp add: ThreadEntry_exit_def Let_def)
  with assms(1) show ?thesis by (simp add: set_current_state_parked)
next
  case False
  then obtain c where c: "current_thread (kthreads s k) = Some c"
    by (cases "current_thread (kthreads s k)") (auto simp: set_current_state_def crash_def)
  let ?s1 = "push k InThreadEntry_assert (set_current_state k kZombie s)"
  have e: "ThreadEntry_exit k s = Yield k Yield_default ?s1"
    using False by (simp add: ThreadEntry_exit_def Let_def)
  have s1: "thread_queue ?s1 = thread_queue s"
    "current_thread (kthreads ?s1 k) = Some (c\<lparr>state := kZombie\<rparr>)"
    "crashed ?s1 = crashed s"
    "\<And>j. j \<noteq> k \<Longrightarrow> live (kthreads ?s1 j) = live (kthreads s j)"
    using c by (simp_all add: push_def set_current_state_def upd_kthread_def)
  show ?thesis
    unfolding e using assms
    by (intro Yield_parked) (auto simp: s1 trampoline_parked_def)
qed

lemma parked_live:
  assumes "trampoline_parked s" "live (kthreads s k) = f # fs"
  shows "f \<noteq> InThreadEntry_assert" "InThreadEntry_assert \<notin> set fs"
proof -
  from assms(1) have "InThreadEntry_assert \<notin> set (live (kthreads s k))"
    unfolding trampoline_parked_def by blast
  with assms(2) show "f \<noteq> InThreadEntry_assert" "InThreadEntry_assert \<notin> set fs" by auto
qed

lemma pop_parked:
  assumes "trampoline_parked s" "live (kthreads s k) = f # fs"
  shows "trampoline_parked (upd_kthread k (\<lambda>t. t\<lparr>live := fs\<rparr>) s)"
  using assms(1) parked_live(2)[OF assms]
  by (auto simp: trampoline_parked_def upd_kthread_def)

lemma step_parked:
  assumes "trampoline_parked s"
    and "case live (kthreads s k) of
           InThreadEntry_fn # fs \<Rightarrow> find_next Yield_default (thread_queue s) \<noteq> None
         | _ \<Rightarrow> True"
  shows "trampoline_parked (step P k s)"
proof (cases "crashed s \<noteq> None \<or> live (kthreads s k) = []")
  case True
  with assms(1) show ?thesis by (auto simp: step_def)
next
  case False
  then obtain f fs where l: "live (kthreads s k) = f # fs" and c: "crashed s = None"
    by (cases "live (kthreads s k)") auto
  let ?s0 = "upd_kthread k (\<lambda>t. t\<lparr>live := fs\<rparr>) s"
  have p0: "trampoline_parked ?s0" by (rule pop_parked[OF assms(1) l])
  have st: "step P k s = continue P k f ?s0" using l c by (simp add: step_def)
  have q0: "thread_queue ?s0 = thread_queue s" by (simp add: upd_kthread_def)
  note na = parked_live(1)[OF assms(1) l]
  show ?thesis
  proof (cases f)
    case (InUser cs)
    show ?thesis
    proof (cases cs)
      case Nil
      with InUser p0 show ?thesis by (simp add: st)
    next
      case (Cons c cs')
      with InUser p0 show ?thesis
        by (simp add: st exec_cmd_parked push_parked)
    qed
  next
    case InYield
    with p0 show ?thesis by (simp add: st Yield_resume_parked)
  next
    case InSpawn
    with p0 show ?thesis by (simp add: st)
  next
    case InWait
    with p0 show ?thesis by (simp add: st Wait_loop_parked)
  next
    case InThreadEntry_fn
    with assms(2) l have "find_next Yield_default (thread_queue ?s0) \<noteq> None"
      by (simp add: q0)
    with InThreadEntry_fn p0 show ?thesis by (simp add: st ThreadEntry_exit_parked)
  next
    case InThreadEntry_assert
    with na show ?thesis by simp
  next
    case InStartThread
    with p0 show ?thesis by (simp add: st start_thread_parked)
  qed
qed

lemma run_parked:
  "trampoline_parked s \<Longrightarrow> exits_find_thread P ks s \<Longrightarrow> trampoline_parked (run P ks s)"
  by (induction ks arbitrary: s) (auto intro: step_parked)

lemma boot_parked: "trampoline_parked (boot mains blocks)"
  by (simp add: trampoline_parked_def boot_def)

lemma ThreadEntry_exit_eq:
  assumes "crashed s = None" "current_thread (kthreads s k) = Some c"
  shows "ThreadEntry_exit k s =
     Yield k Yield_default (push k InThreadEntry_assert
       (upd_kthread k (\<lambda>t. t\<lparr>current_thread := Some (c\<lparr>state := kZombie\<rparr>)\<rparr>) s))"
  using assms
  by (simp add: ThreadEntry_exit_def set_current_state_def Let_def upd_kthread_def)

lemma step_ThreadEntry_exit_switch:
  assumes "crashed s = None" "live (kthreads s k) = InThreadEntry_fn # fs"
    and "current_thread (kthreads s k) = Some c"
    and "find_next Yield_default (thread_queue s) = Some (t, q')"
  shows "step P k s =
     s\<lparr>thread_queue := q' @ [c\<lparr>state := kZombie, resume := InYield # InThreadEntry_assert # fs\<rparr>],
       kthreads := (kthreads s)
         (k := (kthreads s k)\<lparr>current_thread := Some (t\<lparr>state := kRunning\<rparr>), live := resume t\<rparr>),
       accesses := accesses s @ [(k, Scan), (k, Erase), (k, PushBack)]\<rparr>"
proof -
  let ?s0 = "upd_kthread k (\<lambda>t. t\<lparr>live := fs\<rparr>) s"
  let ?s1 = "push k InThreadEntry_assert
       (upd_kthread k (\<lambda>t. t\<lparr>current_thread := Some (c\<lparr>state := kZombie\<rparr>)\<rparr>) ?s0)"
  have st0: "step P k s = ThreadEntry_exit k ?s0"
    using assms(1,2) by (simp add: step_def)
  have "crashed ?s0 = None" "current_thread (kthreads ?s0 k) = Some c"
    using assms(1,3) by (simp_all add: upd_kthread_def)
  from ThreadEntry_exit_eq[OF this]
  have st: "step P k s = Yield k Yield_default ?s1"
    unfolding st0 .
  have f: "find_next Yield_default (thread_queue ?s1) = Some (t, q')"
    using assms(4) by (simp add: push_def upd_kthread_def)
  have c: "current_thread (kthreads ?s1 k) = Some (c\<lparr>state := kZombie\<rparr>)"
    by (simp add: push_def upd_kthread_def)
  show ?thesis
    unfolding st Yield_some[OF f c]
    by (simp add: push_def upd_kthread_def)
qed

lemma step_ThreadEntry_exit_alone:
  assumes "crashed s = None" "live (kthreads s k) = InThreadEntry_fn # fs"
    and "current_thread (kthreads s k) = Some c"
    and "find_next Yield_default (thread_queue s) = None"
  shows "crashed (run P [k, k] s) = Some AssertFailed"
proof -
  let ?s0 = "upd_kthread k (\<lambda>t. t\<lparr>live := fs\<rparr>) s"
  let ?s1 = "push k InThreadEntry_assert
       (upd_kthread k (\<lambda>t. t\<lparr>current_thread := Some (c\<lparr>state := kZombie\<rparr>)\<rparr>) ?s0)"
  have st0: "step P k s = ThreadEntry_exit k ?s0"
    using assms(1,2) by (simp add: step_def)
  have "crashed ?s0 = None" "current_thread (kthreads ?s0 k) = Some c"
    using assms(1,3) by (simp_all add: upd_kthread_def)
  from ThreadEntry_exit_eq[OF this]
  have st: "step P k s = Yield k Yield_default ?s1"
    unfolding st0 .
  have f: "find_next Yield_default (thread_queue ?s1) = None"
    using assms(4) by (simp add: push_def upd_kthread_def)
  have 1: "live (kthreads (step P k s) k) = InThreadEntry_assert # fs"
    "crashed (step P k s) = None"
    unfolding st Yield_none[OF f] using assms(1)
    by (simp_all add: push_def upd_kthread_def ret_def log_access_def)
  show ?thesis
    using 1 by (simp add: step_def[of P k "step P k s"] ThreadEntry_assert_def crash_def)
qed

text \<open>
  C6. When the user function of a spawned thread has returned, the exit of ThreadEntry
  sets the current thread to Zombie and only then calls Yield. If the scan of that Yield
  finds a thread \<open>t\<close>, the Zombie goes to the back of the pool, suspended in that Yield
  with the assertion as the next thing to run, and the kernel thread continues with
  \<open>t\<close>. No scan ever takes a Zombie. So from any state in which no thread has returned
  from such a final Yield, as at process start, and along any schedule of any number of
  kernel threads on which every exit of ThreadEntry finds a thread in the pool, no thread
  ever returns from its final Yield and the assertion never fires. If the scan finds no
  thread, Yield returns false and the next step of the kernel thread is the assertion.
\<close>

theorem C6_trampoline_final_yield_never_returns:
  "(\<forall>c. crashed s = None \<and> current_thread (kthreads s k) = Some c \<longrightarrow>
      ThreadEntry_exit k s =
        Yield k Yield_default (push k InThreadEntry_assert
          (upd_kthread k (\<lambda>t. t\<lparr>current_thread := Some (c\<lparr>state := kZombie\<rparr>)\<rparr>) s)))
   \<and> (\<forall>c t q' fs. crashed s = None \<and> live (kthreads s k) = InThreadEntry_fn # fs
          \<and> current_thread (kthreads s k) = Some c
          \<and> find_next Yield_default (thread_queue s) = Some (t, q') \<longrightarrow>
        thread_queue (step P k s) =
          q' @ [c\<lparr>state := kZombie, resume := InYield # InThreadEntry_assert # fs\<rparr>]
        \<and> current_thread (kthreads (step P k s) k) = Some (t\<lparr>state := kRunning\<rparr>)
        \<and> live (kthreads (step P k s) k) = resume t
        \<and> crashed (step P k s) = None)
   \<and> (\<forall>b q t q'. find_next b q = Some (t, q') \<longrightarrow> state t \<noteq> kZombie)
   \<and> trampoline_parked (boot mains blocks)
   \<and> (trampoline_parked s \<and> exits_find_thread P ks s \<longrightarrow>
        trampoline_parked (run P ks s) \<and> crashed (run P ks s) \<noteq> Some AssertFailed)
   \<and> (\<forall>c fs. crashed s = None \<and> live (kthreads s k) = InThreadEntry_fn # fs
          \<and> current_thread (kthreads s k) = Some c
          \<and> find_next Yield_default (thread_queue s) = None \<longrightarrow>
        crashed (run P [k, k] s) = Some AssertFailed)"
proof (intro conjI allI impI)
  fix c
  assume "crashed s = None \<and> current_thread (kthreads s k) = Some c"
  then show "ThreadEntry_exit k s =
        Yield k Yield_default (push k InThreadEntry_assert
          (upd_kthread k (\<lambda>t. t\<lparr>current_thread := Some (c\<lparr>state := kZombie\<rparr>)\<rparr>) s))"
    by (simp add: ThreadEntry_exit_eq)
next
  fix c t q' fs
  assume a: "crashed s = None \<and> live (kthreads s k) = InThreadEntry_fn # fs
          \<and> current_thread (kthreads s k) = Some c
          \<and> find_next Yield_default (thread_queue s) = Some (t, q')"
  then have e: "step P k s =
     s\<lparr>thread_queue := q' @ [c\<lparr>state := kZombie, resume := InYield # InThreadEntry_assert # fs\<rparr>],
       kthreads := (kthreads s)
         (k := (kthreads s k)\<lparr>current_thread := Some (t\<lparr>state := kRunning\<rparr>), live := resume t\<rparr>),
       accesses := accesses s @ [(k, Scan), (k, Erase), (k, PushBack)]\<rparr>"
    by (intro step_ThreadEntry_exit_switch) auto
  show "thread_queue (step P k s) =
          q' @ [c\<lparr>state := kZombie, resume := InYield # InThreadEntry_assert # fs\<rparr>]"
    by (simp add: e)
  show "current_thread (kthreads (step P k s) k) = Some (t\<lparr>state := kRunning\<rparr>)"
    by (simp add: e)
  show "live (kthreads (step P k s) k) = resume t"
    by (simp add: e)
  show "crashed (step P k s) = None"
    using a by (simp add: e)
next
  fix b q t q'
  assume "find_next b q = Some (t, q')"
  then show "state t \<noteq> kZombie" by (rule find_next_set(3))
next
  show "trampoline_parked (boot mains blocks)" by (rule boot_parked)
next
  assume a: "trampoline_parked s \<and> exits_find_thread P ks s"
  then show p: "trampoline_parked (run P ks s)" by (simp add: run_parked)
  then show "crashed (run P ks s) \<noteq> Some AssertFailed"
    by (simp add: trampoline_parked_def)
next
  fix c fs
  assume "crashed s = None \<and> live (kthreads s k) = InThreadEntry_fn # fs
          \<and> current_thread (kthreads s k) = Some c
          \<and> find_next Yield_default (thread_queue s) = None"
  then show "crashed (run P [k, k] s) = Some AssertFailed"
    by (intro step_ThreadEntry_exit_alone) auto
qed

theorem C6_trampoline_final_yield_never_returns_witness:
  "trampoline_parked (scenario 0x402000 7 0 0x7F0000000000)
   \<and> exits_find_thread incr_program (replicate 8 0) (scenario 0x402000 7 0 0x7F0000000000)
   \<and> crashed (run incr_program (replicate 8 0) (scenario 0x402000 7 0 0x7F0000000000))
       \<noteq> Some AssertFailed
   \<and> live (kthreads (run incr_program (replicate 5 0) (scenario 0x402000 7 0 0x7F0000000000)) 0)
       = [InThreadEntry_fn]
   \<and> map state (thread_queue (step incr_program 0
        (run incr_program (replicate 5 0) (scenario 0x402000 7 0 0x7F0000000000)))) = [kZombie]
   \<and> crashed (step incr_program 0
        (run incr_program (replicate 5 0) (scenario 0x402000 7 0 0x7F0000000000))) = None"
proof -
  let ?s = "scenario 0x402000 7 0 0x7F0000000000"
  let ?s5 = "run incr_program (replicate 5 0) ?s"
  let ?t0 = "\<lparr>thread_id = 0, state = kWaiting, stack = 0,
              ctxt = \<lparr>rsp = None, mxcsr = 0x1F80, x87 = 0x037F\<rparr>,
              resume = [InYield, InSpawn, InUser [CGetThreadCount]]\<rparr>"
  let ?t1 = "\<lparr>thread_id = 1, state = kRunning, stack = 0x7F0000000000,
              ctxt = \<lparr>rsp = Some 0x7F00001FFFE0, mxcsr = 0x1F80, x87 = 0x037F\<rparr>,
              resume = [InStartThread]\<rparr>"
  have b: "?s = boot (\<lambda>k. if k = 0
               then [CInitialize, CSpawn 0x402000 7] @ replicate 0 (CYield True) @ [CGetThreadCount]
               else []) [0x7F0000000000]"
    by (simp add: scenario_def)
  have x: "exits_find_thread incr_program (replicate 8 0) ?s"
    by (simp add: replicate_8 scenario_def incr_program_def run_defs)
  have s5: "crashed ?s5 = None" "live (kthreads ?s5 0) = InThreadEntry_fn # []"
    "current_thread (kthreads ?s5 0) = Some ?t1"
    "find_next Yield_default (thread_queue ?s5) = Some (?t0, [])"
    by (simp_all add: replicate_5 scenario_def incr_program_def run_defs)
  note C = C6_trampoline_final_yield_never_returns[where s = "?s" and k = 0 and P = incr_program and ks = "replicate 8 0"
       and mains = "\<lambda>k. if k = 0
               then [CInitialize, CSpawn 0x402000 7] @ replicate 0 (CYield True) @ [CGetThreadCount]
               else []" and blocks = "[0x7F0000000000]"]
  from C have p: "trampoline_parked ?s" unfolding b by blast
  from C p x have 1: "crashed (run incr_program (replicate 8 0) ?s) \<noteq> Some AssertFailed"
    by blast
  note D = C6_trampoline_final_yield_never_returns[where s = "?s5" and k = 0 and P = incr_program]
  from D s5 have 2: "thread_queue (step incr_program 0 ?s5) =
          [] @ [?t1\<lparr>state := kZombie, resume := InYield # InThreadEntry_assert # []\<rparr>]"
    "crashed (step incr_program 0 ?s5) = None"
    by blast+
  from 2(1) have 3: "map state (thread_queue (step incr_program 0 ?s5)) = [kZombie]"
    by simp
  from p x 1 s5(2) 3 2(2) show ?thesis by simp
qed

section \<open>Wait\<close>

lemma Wait_eq:
  assumes "crashed s = None" "current_thread (kthreads s k) = Some c"
  shows "Wait k s =
     Yield k True (push k InWait
       (upd_kthread k (\<lambda>t. t\<lparr>current_thread := Some (c\<lparr>state := kWaiting\<rparr>)\<rparr>) s))"
  using assms by (simp add: Wait_def set_current_state_def Let_def upd_kthread_def)

lemma step_InWait_again:
  assumes "crashed s = None" "live (kthreads s k) = InWait # fs" "rax (kthreads s k)"
    and "current_thread (kthreads s k) = Some c"
  shows "step P k s =
     Yield k True
       (upd_kthread k (\<lambda>t. t\<lparr>current_thread := Some (c\<lparr>state := kWaiting\<rparr>),
                               live := InWait # fs\<rparr>) s)"
  using assms
  by (simp add: step_def Wait_loop_def set_current_state_def Let_def upd_kthread_def push_def)

lemma step_InWait_return:
  assumes "crashed s = None" "live (kthreads s k) = InWait # fs" "\<not> rax (kthreads s k)"
  shows "step P k s = upd_kthread k (\<lambda>t. t\<lparr>live := fs\<rparr>) s"
  using assms by (simp add: step_def Wait_loop_def upd_kthread_def)

lemma step_CWait:
  assumes "crashed s = None" "live (kthreads s k) = InUser (CWait # cs) # fs"
    and "current_thread (kthreads s k) = Some c"
  shows "step P k s =
     Yield k True
       (upd_kthread k (\<lambda>t. t\<lparr>current_thread := Some (c\<lparr>state := kWaiting\<rparr>),
                               live := InWait # InUser cs # fs\<rparr>) s)"
  using assms
  by (simp add: step_def Wait_def set_current_state_def Let_def upd_kthread_def push_def)

text \<open>
  C7. With a current thread \<open>c\<close>, Wait sets \<open>c\<close> to Waiting and then calls Yield(true).
  When that Yield has returned true (the thread has been switched away from and back
  to), the loop sets the current thread to Waiting again and calls Yield(true) again;
  when it has returned false, Wait returns to its caller and changes nothing else. So a
  call of Wait with no Ready thread in the pool returns at once: its Yield(true) returns
  false, the caller continues with the thread still the current thread of the kernel
  thread, now Waiting, and the pool as it was. With a Ready thread \<open>t\<close> in the pool the
  first Yield(true) switches to \<open>t\<close>, and the caller waits at the back of the pool,
  Waiting, suspended in that Yield inside the loop of Wait.
\<close>

theorem C7_wait_yields_until_no_ready:
  "(\<forall>c. crashed s = None \<and> current_thread (kthreads s k) = Some c \<longrightarrow>
      Wait k s =
        Yield k True (push k InWait
          (upd_kthread k (\<lambda>t. t\<lparr>current_thread := Some (c\<lparr>state := kWaiting\<rparr>)\<rparr>) s)))
   \<and> (\<forall>c fs. crashed s = None \<and> live (kthreads s k) = InWait # fs \<and> rax (kthreads s k)
          \<and> current_thread (kthreads s k) = Some c \<longrightarrow>
        step P k s =
          Yield k True
            (upd_kthread k (\<lambda>t. t\<lparr>current_thread := Some (c\<lparr>state := kWaiting\<rparr>),
                                    live := InWait # fs\<rparr>) s))
   \<and> (\<forall>fs. crashed s = None \<and> live (kthreads s k) = InWait # fs \<and> \<not> rax (kthreads s k) \<longrightarrow>
        step P k s = upd_kthread k (\<lambda>t. t\<lparr>live := fs\<rparr>) s)
   \<and> (\<forall>c cs fs. crashed s = None \<and> live (kthreads s k) = InUser (CWait # cs) # fs
          \<and> current_thread (kthreads s k) = Some c
          \<and> (\<forall>t\<in>set (thread_queue s). state t \<noteq> kReady) \<longrightarrow>
        rax (kthreads (run P [k] s) k) = False
        \<and> live (kthreads (run P [k] s) k) = InWait # InUser cs # fs
        \<and> live (kthreads (run P [k, k] s) k) = InUser cs # fs
        \<and> current_thread (kthreads (run P [k, k] s) k) = Some (c\<lparr>state := kWaiting\<rparr>)
        \<and> thread_queue (run P [k, k] s) = thread_queue s
        \<and> crashed (run P [k, k] s) = None)
   \<and> (\<forall>c cs fs t q'. crashed s = None \<and> live (kthreads s k) = InUser (CWait # cs) # fs
          \<and> current_thread (kthreads s k) = Some c
          \<and> find_next True (thread_queue s) = Some (t, q') \<longrightarrow>
        thread_queue (step P k s) =
          q' @ [c\<lparr>state := kWaiting, resume := InYield # InWait # InUser cs # fs\<rparr>]
        \<and> current_thread (kthreads (step P k s) k) = Some (t\<lparr>state := kRunning\<rparr>)
        \<and> live (kthreads (step P k s) k) = resume t)"
proof (intro conjI allI impI)
  fix c
  assume "crashed s = None \<and> current_thread (kthreads s k) = Some c"
  then show "Wait k s =
        Yield k True (push k InWait
          (upd_kthread k (\<lambda>t. t\<lparr>current_thread := Some (c\<lparr>state := kWaiting\<rparr>)\<rparr>) s))"
    by (simp add: Wait_eq)
next
  fix c fs
  assume "crashed s = None \<and> live (kthreads s k) = InWait # fs \<and> rax (kthreads s k)
          \<and> current_thread (kthreads s k) = Some c"
  then show "step P k s =
          Yield k True
            (upd_kthread k (\<lambda>t. t\<lparr>current_thread := Some (c\<lparr>state := kWaiting\<rparr>),
                                    live := InWait # fs\<rparr>) s)"
    by (intro step_InWait_again) auto
next
  fix fs
  assume "crashed s = None \<and> live (kthreads s k) = InWait # fs \<and> \<not> rax (kthreads s k)"
  then show "step P k s = upd_kthread k (\<lambda>t. t\<lparr>live := fs\<rparr>) s"
    by (intro step_InWait_return) auto
next
  fix c cs fs
  assume a: "crashed s = None \<and> live (kthreads s k) = InUser (CWait # cs) # fs
          \<and> current_thread (kthreads s k) = Some c
          \<and> (\<forall>t\<in>set (thread_queue s). state t \<noteq> kReady)"
  let ?s1 = "upd_kthread k (\<lambda>t. t\<lparr>current_thread := Some (c\<lparr>state := kWaiting\<rparr>),
                               live := InWait # InUser cs # fs\<rparr>) s"
  from a have st: "step P k s = Yield k True ?s1"
    by (intro step_CWait) auto
  from a have "find_next True (thread_queue ?s1) = None"
    by (simp add: find_next_None_iff upd_kthread_def)
  from Yield_none[OF this, of k]
  have e: "step P k s = ret k False (log_access k Scan ?s1)"
    unfolding st .
  have 1: "crashed (step P k s) = None" "live (kthreads (step P k s) k) = InWait # InUser cs # fs"
    "\<not> rax (kthreads (step P k s) k)"
    using a by (simp_all add: e ret_def log_access_def upd_kthread_def)
  have e2: "step P k (step P k s) = upd_kthread k (\<lambda>t. t\<lparr>live := InUser cs # fs\<rparr>) (step P k s)"
    by (rule step_InWait_return[OF 1])
  show "rax (kthreads (run P [k] s) k) = False"
    using 1 by simp
  show "live (kthreads (run P [k] s) k) = InWait # InUser cs # fs"
    using 1 by simp
  show "live (kthreads (run P [k, k] s) k) = InUser cs # fs"
    by (simp add: e2 upd_kthread_def)
  show "current_thread (kthreads (run P [k, k] s) k) = Some (c\<lparr>state := kWaiting\<rparr>)"
    by (simp add: e2) (simp add: e ret_def log_access_def upd_kthread_def)
  show "thread_queue (run P [k, k] s) = thread_queue s"
    by (simp add: e2) (simp add: e ret_def log_access_def upd_kthread_def)
  show "crashed (run P [k, k] s) = None"
    using a by (simp add: e2) (simp add: e ret_def log_access_def upd_kthread_def)
next
  fix c cs fs t q'
  assume a: "crashed s = None \<and> live (kthreads s k) = InUser (CWait # cs) # fs
          \<and> current_thread (kthreads s k) = Some c
          \<and> find_next True (thread_queue s) = Some (t, q')"
  let ?s1 = "upd_kthread k (\<lambda>t. t\<lparr>current_thread := Some (c\<lparr>state := kWaiting\<rparr>),
                               live := InWait # InUser cs # fs\<rparr>) s"
  from a have st: "step P k s = Yield k True ?s1"
    by (intro step_CWait) auto
  from a have f: "find_next True (thread_queue ?s1) = Some (t, q')"
    by (simp add: upd_kthread_def)
  have c: "current_thread (kthreads ?s1 k) = Some (c\<lparr>state := kWaiting\<rparr>)"
    by (simp add: upd_kthread_def)
  note y = Yield_some[OF f c]
  show "thread_queue (step P k s) =
          q' @ [c\<lparr>state := kWaiting, resume := InYield # InWait # InUser cs # fs\<rparr>]"
    unfolding st y by (simp add: upd_kthread_def)
  show "current_thread (kthreads (step P k s) k) = Some (t\<lparr>state := kRunning\<rparr>)"
    unfolding st y by (simp add: upd_kthread_def)
  show "live (kthreads (step P k s) k) = resume t"
    unfolding st y by (simp add: upd_kthread_def)
qed

theorem C7_wait_yields_until_no_ready_witness:
  "live (kthreads (step incr_program 0 (boot (\<lambda>k. [CInitialize, CWait, CIncr]) [])) 0)
     = [InUser [CWait, CIncr]]
   \<and> rax (kthreads (run incr_program [0]
        (step incr_program 0 (boot (\<lambda>k. [CInitialize, CWait, CIncr]) []))) 0) = False
   \<and> live (kthreads (run incr_program [0, 0]
        (step incr_program 0 (boot (\<lambda>k. [CInitialize, CWait, CIncr]) []))) 0) = [InUser [CIncr]]
   \<and> map_option state (current_thread (kthreads (run incr_program [0, 0]
        (step incr_program 0 (boot (\<lambda>k. [CInitialize, CWait, CIncr]) []))) 0)) = Some kWaiting
   \<and> find_next True (thread_queue
        (upd_kthread 0 (\<lambda>t. t\<lparr>live := [InUser [CWait]]\<rparr>)
           (sample_sys [sample_thread 2 kReady] (sample_thread 0 kRunning))))
       = Some (sample_thread 2 kReady, [])
   \<and> thread_queue (step incr_program 0
        (upd_kthread 0 (\<lambda>t. t\<lparr>live := [InUser [CWait]]\<rparr>)
           (sample_sys [sample_thread 2 kReady] (sample_thread 0 kRunning))))
       = [(sample_thread 0 kWaiting)\<lparr>resume := [InYield, InWait, InUser []]\<rparr>]
   \<and> current_thread (kthreads (step incr_program 0
        (upd_kthread 0 (\<lambda>t. t\<lparr>live := [InUser [CWait]]\<rparr>)
           (sample_sys [sample_thread 2 kReady] (sample_thread 0 kRunning)))) 0)
       = Some (sample_thread 2 kRunning)"
proof -
  let ?s = "step incr_program 0 (boot (\<lambda>k. [CInitialize, CWait, CIncr]) [])"
  let ?c = "\<lparr>thread_id = 0, state = kWaiting, stack = 0,
             ctxt = \<lparr>rsp = None, mxcsr = 0x1F80, x87 = 0x037F\<rparr>, resume = []\<rparr>"
  have h: "crashed ?s = None" "live (kthreads ?s 0) = InUser (CWait # [CIncr]) # []"
    "current_thread (kthreads ?s 0) = Some ?c"
    "\<forall>t\<in>set (thread_queue ?s). state t \<noteq> kReady"
    by (simp_all add: run_defs)
  note C = C7_wait_yields_until_no_ready[where s = "?s" and k = 0 and P = incr_program]
  from C h have 1: "rax (kthreads (run incr_program [0] ?s) 0) = False"
    "live (kthreads (run incr_program [0, 0] ?s) 0) = InUser [CIncr] # []"
    "current_thread (kthreads (run incr_program [0, 0] ?s) 0) = Some (?c\<lparr>state := kWaiting\<rparr>)"
    by blast+
  let ?u = "upd_kthread 0 (\<lambda>t. t\<lparr>live := [InUser [CWait]]\<rparr>)
              (sample_sys [sample_thread 2 kReady] (sample_thread 0 kRunning))"
  have g: "crashed ?u = None" "live (kthreads ?u 0) = InUser (CWait # []) # []"
    "current_thread (kthreads ?u 0) = Some (sample_thread 0 kRunning)"
    "find_next True (thread_queue ?u) = Some (sample_thread 2 kReady, [])"
    by (simp_all add: sample_sys_def sample_thread_def upd_kthread_def idle_def boot_def)
  note D = C7_wait_yields_until_no_ready[where s = "?u" and k = 0 and P = incr_program]
  from D g have 2: "thread_queue (step incr_program 0 ?u) =
          [] @ [(sample_thread 0 kRunning)\<lparr>state := kWaiting,
                   resume := InYield # InWait # InUser [] # []\<rparr>]"
    "current_thread (kthreads (step incr_program 0 ?u) 0)
       = Some ((sample_thread 2 kReady)\<lparr>state := kRunning\<rparr>)"
    by blast+
  from h(2) 1 g(4) 2 show ?thesis
    by (simp add: sample_thread_def)
qed

end
